theory Spec2Isabelle
  imports Complex_Main
begin

unbundle bit_operations_syntax

section \<open>Data model\<close>

text \<open>
  The library \<^verbatim>\<open>dbc_fft.h\<close> is instantiated per element type \<^verbatim>\<open>DBCF_Type\<close>.
  Arithmetic is interpreted exactly: the element type is \<^typ>\<open>real\<close>.  The index type
  \<^verbatim>\<open>dbcf_index\<close> (\<^verbatim>\<open>ptrdiff_t\<close> unless the user defines it, 64 bits) is \<^typ>\<open>int\<close>.
  The indices of the loops stay within the arrays the code is given and are computed
  as they are; the shift of \<^verbatim>\<open>dbcF_bitreverse\<close>, which a caller can send out of the
  64 bits with the number of bits alone, wraps around (\<open>index_shl\<close> below).

  Memory is a store from addresses to elements.  An address counts elements, so that
  \<^verbatim>\<open>p[i]\<close> is the cell \<open>p + i\<close>; the null pointer is the address \<open>0\<close>.

  The model is the scalar configuration (no SIMD back-end, which is what the
  \<^verbatim>\<open>long double\<close> instantiation and \<^verbatim>\<open>DBC_FFT_NO_SIMD\<close> give), with the
  bit-reverse table and the non-power-of-two code enabled, and the default
  \<^verbatim>\<open>DBCF_TMP_BUF_LOG2\<close>.
\<close>

type_synonym ptr = int
type_synonym mem = "int \<Rightarrow> real"

abbreviation (input) NULL :: ptr where
  "NULL \<equiv> 0"

definition DBCF_ERROR_INVALID_ARGUMENT :: int where
  "DBCF_ERROR_INVALID_ARGUMENT = - 1"

definition DBCF_ERROR_OUT_OF_MEMORY :: int where
  "DBCF_ERROR_OUT_OF_MEMORY = - 2"

text \<open>
  What a call does: it returns a code and leaves a memory, or it reads or writes through a
  null pointer (undefined behaviour in C, made a value here), or it never returns.
\<close>

datatype outcome = Returns int mem | Null_dereference | Diverges

text \<open>
  What the code takes from its surroundings: the two replaceable seed routines
  (\<^verbatim>\<open>DBCF_cexpm1\<close>, \<^verbatim>\<open>DBCF_cexpm1_npot\<close>: \<open>None\<close> when the macro is not defined and
  the built-in routine is compiled), the allocator \<^verbatim>\<open>dbcf_malloc\<close> (the address it
  returns for a request of so many elements, \<open>NULL\<close> on failure), and the addresses of the
  two local arrays \<^verbatim>\<open>dummy[2]\<close> and \<^verbatim>\<open>tmp[DBCF_TMP_BUF_SIZE]\<close> of the power-of-two driver.
\<close>

record config =
  cfg_cexpm1 :: "(int \<Rightarrow> real \<times> real) option"
  cfg_cexpm1_npot :: "(int \<Rightarrow> int \<Rightarrow> real \<times> real) option"
  cfg_malloc :: "int \<Rightarrow> ptr"
  cfg_dummy :: ptr
  cfg_tmp :: ptr

definition DBCF_POW2 :: "int \<Rightarrow> int" where
  "DBCF_POW2 n = push_bit (nat n) 1"

definition DBCF_TMP_BUF_LOG2 :: int where
  "DBCF_TMP_BUF_LOG2 = 10"

definition DBCF_TMP_BUF_SIZE :: int where
  "DBCF_TMP_BUF_SIZE = DBCF_POW2 DBCF_TMP_BUF_LOG2"

definition DBCF_TWIDDLES_BUF_LOG2 :: int where
  "DBCF_TWIDDLES_BUF_LOG2 = DBCF_TMP_BUF_LOG2 - 1"

definition DBCF_TWIDDLES_BUF_SIZE :: int where
  "DBCF_TWIDDLES_BUF_SIZE = DBCF_POW2 DBCF_TWIDDLES_BUF_LOG2"

definition DBCF_Q :: int where
  "DBCF_Q = (if drop_bit 1 DBCF_TMP_BUF_LOG2 < 6 then drop_bit 1 DBCF_TMP_BUF_LOG2 else 6)"

section \<open>Loops\<close>

text \<open>\<^verbatim>\<open>for(i=0;i<n;++i) body\<close>: the body runs for \<open>i = 0, ..., n - 1\<close> in this order.\<close>

primrec loop_upto :: "nat \<Rightarrow> (int \<Rightarrow> 's \<Rightarrow> 's) \<Rightarrow> 's \<Rightarrow> 's" where
  "loop_upto 0 body s = s"
| "loop_upto (Suc k) body s = body (int k) (loop_upto k body s)"

definition for_loop :: "int \<Rightarrow> (int \<Rightarrow> 's \<Rightarrow> 's) \<Rightarrow> 's \<Rightarrow> 's" where
  "for_loop n body s = loop_upto (nat n) body s"

text \<open>\<^verbatim>\<open>for(i=a;i<n;i+=d) body\<close> for a positive constant step \<open>d\<close>.\<close>

function for_loop_step :: "int \<Rightarrow> int \<Rightarrow> int \<Rightarrow> (int \<Rightarrow> 's \<Rightarrow> 's) \<Rightarrow> 's \<Rightarrow> 's" where
  "for_loop_step i d n body s =
     (if i < n \<and> 0 < d then for_loop_step (i + d) d n body (body i s) else s)"
  by pat_completeness auto
termination
  by (relation "measure (\<lambda>(i, d, n, body, s). nat (n - i))") auto

declare for_loop_step.simps [simp del]

section \<open>Bit reversal of an index\<close>

text \<open>The 512-byte table, generated as the macros \<^verbatim>\<open>DBCF_R1\<close> .. \<^verbatim>\<open>DBCF_R8\<close> do.\<close>

definition DBCF_R1 :: "int \<Rightarrow> int \<Rightarrow> int list" where
  "DBCF_R1 n c = [n, n + c]"

definition DBCF_R2 :: "int \<Rightarrow> int \<Rightarrow> int list" where
  "DBCF_R2 n c = DBCF_R1 n (2 * c) @ DBCF_R1 (n + c) (2 * c)"

definition DBCF_R3 :: "int \<Rightarrow> int \<Rightarrow> int list" where
  "DBCF_R3 n c = DBCF_R2 n (2 * c) @ DBCF_R2 (n + c) (2 * c)"

definition DBCF_R4 :: "int \<Rightarrow> int \<Rightarrow> int list" where
  "DBCF_R4 n c = DBCF_R3 n (2 * c) @ DBCF_R3 (n + c) (2 * c)"

definition DBCF_R5 :: "int \<Rightarrow> int \<Rightarrow> int list" where
  "DBCF_R5 n c = DBCF_R4 n (2 * c) @ DBCF_R4 (n + c) (2 * c)"

definition DBCF_R6 :: "int \<Rightarrow> int \<Rightarrow> int list" where
  "DBCF_R6 n c = DBCF_R5 n (2 * c) @ DBCF_R5 (n + c) (2 * c)"

definition DBCF_R7 :: "int \<Rightarrow> int \<Rightarrow> int list" where
  "DBCF_R7 n c = DBCF_R6 n (2 * c) @ DBCF_R6 (n + c) (2 * c)"

definition DBCF_R8 :: "int \<Rightarrow> int \<Rightarrow> int list" where
  "DBCF_R8 n c = DBCF_R7 n (2 * c) @ DBCF_R7 (n + c) (2 * c)"

definition dbcF_bitreverse_table :: "int list" where
  "dbcF_bitreverse_table =
     [0, 0] @ DBCF_R1 0 1 @ DBCF_R2 0 1 @ DBCF_R3 0 1 @ DBCF_R4 0 1 @ DBCF_R5 0 1
       @ DBCF_R6 0 1 @ DBCF_R7 0 1 @ DBCF_R8 0 1"

text \<open>
  \<^verbatim>\<open>x<<n\<close> in the index type: the low 64 bits of the shifted value, read in two's
  complement, with the count taken modulo 64.  C leaves a shift that overflows the signed
  type, or whose count is 64 or more, undefined; this is what the shift instructions of
  the 64-bit targets return.
\<close>

definition index_shl :: "int \<Rightarrow> int \<Rightarrow> int" where
  "index_shl x n = signed_take_bit 63 (push_bit (nat (n mod 64)) x)"

text \<open>
  \<^verbatim>\<open>dbcF_bitreverse\<close>, compiled with the table.  An index outside the table is undefined
  behaviour in C; \<open>!\<close> leaves the value unspecified there.
\<close>

function dbcF_bitreverse :: "int \<Rightarrow> int \<Rightarrow> int" where
  "dbcF_bitreverse i bits =
     (if bits \<le> 8 then dbcF_bitreverse_table ! nat (DBCF_POW2 bits + i)
      else index_shl (dbcF_bitreverse_table ! nat (256 + (i AND 255))) (bits - 8)
             XOR dbcF_bitreverse (drop_bit 8 i) (bits - 8))"
  by pat_completeness auto
termination
  by (relation "measure (\<lambda>(i, bits). nat bits)") auto

declare dbcF_bitreverse.simps [simp del]

text \<open>
  \<^verbatim>\<open>dbcF_bitreverse\<close>, compiled with \<^verbatim>\<open>DBC_FFT_NO_BITREVERSE_TABLE\<close>: the statements
  on \<open>j\<close> before the test \<^verbatim>\<open>bits>8\<close>, then the function.
\<close>

definition dbcF_bitreverse_notable_byte :: "int \<Rightarrow> int \<Rightarrow> int" where
  "dbcF_bitreverse_notable_byte i bits =
     (let j = i AND 255;
          b = (if bits < 8 then bits else 8);
          j = drop_bit 4 j XOR push_bit 4 j;
          j = drop_bit 2 (j AND 0xCC) XOR push_bit 2 (j AND 0x33);
          j = drop_bit 1 (j AND 0xAA) XOR push_bit 1 (j AND 0x55)
      in drop_bit (nat (8 - b)) j)"

function dbcF_bitreverse_notable :: "int \<Rightarrow> int \<Rightarrow> int" where
  "dbcF_bitreverse_notable i bits =
     (let j = dbcF_bitreverse_notable_byte i bits
      in if bits > 8
         then index_shl j (bits - 8) XOR dbcF_bitreverse_notable (drop_bit 8 i) (bits - 8)
         else j)"
  by pat_completeness auto
termination
  by (relation "measure (\<lambda>(i, bits). nat bits)") auto

declare dbcF_bitreverse_notable.simps [simp del]

section \<open>Twiddle factors\<close>

text \<open>The table of \<^verbatim>\<open>dbcF_cexpm1\<close>: the literals of the source, as the decimals they are.\<close>

definition dbcF_cexpm1_table :: "(real \<times> real) list" where
  "dbcF_cexpm1_table =
    [(0, 0),
     (- 2, 0),
     (- 1, 1),
     (- (2928932188134524755991556378951509607151 / 10 ^ 40),
        7071067811865475244008443621048490392848 / 10 ^ 40),
     (- (7612046748871324387181681060321171317758 / 10 ^ 41),
        3826834323650897717284599840303988667613 / 10 ^ 40),
     (- (1921471959676955087381776386576096302606 / 10 ^ 41),
        1950903220161282678482848684770222409276 / 10 ^ 40),
     (- (4815273327803113755163046890520078424525 / 10 ^ 42),
        9801714032956060199419556388864184586113 / 10 ^ 41),
     (- (1204543794827607285228395240899305556796 / 10 ^ 42),
        4906767432741801425495497694268265831474 / 10 ^ 41),
     (- (3011813037957798842343503338278031499389 / 10 ^ 43),
        2454122852291228803173452945928292506546 / 10 ^ 41),
     (- (7529816085545907835350880361677564939353 / 10 ^ 44),
        1227153828571992607940826195100321214037 / 10 ^ 41),
     (- (1882471739885734300956227143228382608274 / 10 ^ 44),
        6135884649154475359640234590372580917057 / 10 ^ 42),
     (- (4706190423828488419874299880100447012366 / 10 ^ 45),
        3067956762965976270145365490919842518944 / 10 ^ 42),
     (- (1176548298090070974289828473980951732077 / 10 ^ 45),
        1533980186284765612303697150264079079954 / 10 ^ 42),
     (- (2941371177808397717822612343228837361006 / 10 ^ 46),
        7669903187427045269385683579485766431409 / 10 ^ 43),
     (- (7353428214885526851929261214305179884431 / 10 ^ 47),
        3834951875713955890724616811813812633950 / 10 ^ 43),
     (- (1838357070619165308459709028549492394875 / 10 ^ 47),
        1917475973107033074399095619890009334688 / 10 ^ 43),
     (- (4595892687109028066860393851041105696810 / 10 ^ 48),
        9587379909597734587051721097647635118706 / 10 ^ 44)]"

text \<open>
  \<^verbatim>\<open>dbcF_cexpm1\<close>: the replacement macro when there is one, else the table for
  \<open>log2n < 17\<close> and the Taylor polynomials beyond.  A negative \<open>log2n\<close> indexes the table out
  of range in C (undefined behaviour): no value is given to it here.
\<close>

definition dbcF_cexpm1 :: "config \<Rightarrow> int \<Rightarrow> real \<times> real" where
  "dbcF_cexpm1 cfg log2n =
     (case cfg_cexpm1 cfg of
        Some macro \<Rightarrow> macro log2n
      | None \<Rightarrow>
          if log2n < int (length dbcF_cexpm1_table)
          then (if log2n < 0 then undefined else dbcF_cexpm1_table ! nat log2n)
          else
            let n = push_bit (nat log2n) (1 :: int);
                C1 = 1;
                C2 = 5 / 10;
                C3 = 1666666666666666666666666666666666666666 / 10 ^ 40;
                C4 = 4166666666666666666666666666666666666666 / 10 ^ 41;
                C5 = 8333333333333333333333333333333333333333 / 10 ^ 42;
                C6 = 1388888888888888888888888888888888888888 / 10 ^ 42;
                C7 = 1984126984126984126984126984126984126984 / 10 ^ 43;
                C8 = 2480158730158730158730158730158730158730 / 10 ^ 44;
                x = (6283185307179586476925286766559005768 / 10 ^ 36) / real_of_int n;
                x2 = x * x
            in (- x2 * (C2 - x2 * (C4 - x2 * (C6 - x2 * C8))),
                x * (C1 - x2 * (C3 - x2 * (C5 - x2 * C7)))))"

definition dbcF_cexp :: "config \<Rightarrow> int \<Rightarrow> real \<times> real" where
  "dbcF_cexp cfg log2n = (let (r, i) = dbcF_cexpm1 cfg log2n in (1 + r, i))"

text \<open>
  The two statements in the body of the doubling loops of \<^verbatim>\<open>dbcF_compute_twiddles\<close> and
  \<^verbatim>\<open>dbcF_compute_twiddles_npot\<close>: entry \<open>k + j\<close> from entry \<open>j\<close> and the seed \<open>(x, y)\<close>,
  in the form \<open>(cos - 1, sin)\<close>.
\<close>

definition twiddle_step :: "ptr \<Rightarrow> ptr \<Rightarrow> real \<Rightarrow> real \<Rightarrow> int \<Rightarrow> int \<Rightarrow> mem \<Rightarrow> mem" where
  "twiddle_step re im x y k j m =
     (let m' = m(re + (k + j) := (x * m (re + j) - y * m (im + j)) + (x + m (re + j)))
      in m'(im + (k + j) := (y * m' (re + j) + x * m' (im + j)) + (y + m' (im + j))))"

definition dbcF_compute_twiddles ::
  "config \<Rightarrow> int \<Rightarrow> int \<Rightarrow> ptr \<Rightarrow> ptr \<Rightarrow> bool \<Rightarrow> mem \<Rightarrow> mem" where
  "dbcF_compute_twiddles cfg log2n log2b re im is_inverse m0 =
     (let m1 = m0(re := 0);
          m2 = m1(im := 0);
          m3 = for_loop log2b (\<lambda>i m.
                 let k = DBCF_POW2 i;
                     (x, y0) = dbcF_cexpm1 cfg (log2n - i);
                     y = (if \<not> is_inverse then - y0 else y0)
                 in for_loop k (twiddle_step re im x y k) m)
               m2
      in for_loop (DBCF_POW2 log2b) (\<lambda>i m. m(re + i := 1 + m (re + i))) m3)"

text \<open>
  \<^verbatim>\<open>dbcF_cexpm1_npot\<close>.  The loop \<^verbatim>\<open>for(i=32;i>=0;--i)\<close> runs its body 33 times; the body
  does not read \<open>i\<close>, its state is \<open>(C, S, I)\<close>.
\<close>

definition dbcF_cexpm1_npot :: "config \<Rightarrow> int \<Rightarrow> int \<Rightarrow> real \<times> real" where
  "dbcF_cexpm1_npot cfg p q =
     (case cfg_cexpm1_npot cfg of
        Some macro \<Rightarrow> macro p q
      | None \<Rightarrow>
          let x = (6283185307179586476925286766559005768 / 10 ^ 36) * real_of_int p / real_of_int q;
              x2 = x * x;
              (C, S, I) = for_loop 33 (\<lambda>i (C, S, I).
                            let J = 2 * I + 3;
                                K = I + I + 3;
                                J = J * J
                            in (1 - x2 * C / (J + K), 1 - x2 * S / (J - K), I - 1))
                          (1, 1, 32);
              C = - C * (5 / 10) * x2;
              S = S * x
          in (C, S))"

text \<open>
  The doubling loop \<^verbatim>\<open>for(i=1;i<h;i*=2)\<close> of \<^verbatim>\<open>dbcF_compute_twiddles_npot\<close>.  It starts at
  \<open>i = 1\<close>; the test \<open>0 < i\<close> is there for the termination proof only.
\<close>

function dbcF_compute_twiddles_npot_doubling ::
  "config \<Rightarrow> int \<Rightarrow> int \<Rightarrow> int \<Rightarrow> ptr \<Rightarrow> ptr \<Rightarrow> bool \<Rightarrow> mem \<Rightarrow> mem" where
  "dbcF_compute_twiddles_npot_doubling cfg i h n re im is_inverse m =
     (if i < h \<and> 0 < i then
        let (X, Y0) = dbcF_cexpm1_npot cfg i n;
            Y = (if \<not> is_inverse then - Y0 else Y0);
            j = (if h < i * 2 then h - i else i);
            m1 = for_loop j (twiddle_step re im X Y i) m
        in dbcF_compute_twiddles_npot_doubling cfg (i * 2) h n re im is_inverse m1
      else m)"
  by pat_completeness auto
termination
  by (relation "measure (\<lambda>(cfg, i, h, n, re, im, is_inverse, m). nat (h - i))") auto

declare dbcF_compute_twiddles_npot_doubling.simps [simp del]

definition dbcF_compute_twiddles_npot ::
  "config \<Rightarrow> int \<Rightarrow> ptr \<Rightarrow> ptr \<Rightarrow> bool \<Rightarrow> mem \<Rightarrow> mem" where
  "dbcF_compute_twiddles_npot cfg n re im is_inverse m0 =
     (let m = drop_bit 1 n;
          h = drop_bit 1 (m + 2)
      in if n < 1 then m0 else
         let m1 = m0(re := 0);
             m2 = m1(im := 0);
             m3 = dbcF_compute_twiddles_npot_doubling cfg 1 h n re im is_inverse m2;
             m4 = for_loop h (\<lambda>i s. s(re + i := 1 + s (re + i))) m3;
             m5 = for_loop_step h 1 m (\<lambda>i s.
                    let s' = s(re + i := - s (re + (m - i)))
                    in s'(im + i := s' (im + (m - i)))) m4
         in for_loop m (\<lambda>i s.
              let s' = s(re + (m + i) := - s (re + i))
              in s'(im + (m + i) := - s' (im + i))) m5)"

section \<open>Bit-reversal permutation\<close>

text \<open>
  In the loops for \<open>log2n \<le> 8\<close> the index is read from the table at
  \<^verbatim>\<open>idx = dbcF_bitreverse_table + DBCF_POW2(log2n)\<close>.
\<close>

function dbcF_bitreversal_swap ::
  "int \<Rightarrow> ptr \<Rightarrow> int \<Rightarrow> ptr \<Rightarrow> int \<Rightarrow> mem \<Rightarrow> mem" where
  "dbcF_bitreversal_swap log2n src src_stride dst dst_stride m =
     (let n = DBCF_POW2 log2n;
          h = drop_bit 1 n
      in if log2n \<le> 8 then
           for_loop n (\<lambda>i m.
             let j = dbcF_bitreverse_table ! nat (DBCF_POW2 log2n + i);
                 x = m (src + i * src_stride);
                 y = m (dst + j * dst_stride);
                 m = m(src + i * src_stride := y)
             in m(dst + j * dst_stride := x)) m
         else
           let m1 = dbcF_bitreversal_swap (log2n - 1) src (2 * src_stride) dst dst_stride m
           in dbcF_bitreversal_swap (log2n - 1) (src + src_stride) (2 * src_stride)
                (dst + h * dst_stride) dst_stride m1)"
  by pat_completeness auto
termination
  by (relation "measure (\<lambda>(log2n, src, src_stride, dst, dst_stride, m). nat log2n)") auto

declare dbcF_bitreversal_swap.simps [simp del]

text \<open>
  The body of the loop over \<open>b\<close> in the blocked (Carter and Gatlin) regime of the in-place
  case of \<^verbatim>\<open>dbcF_bitreversal_permutation\<close>; \<^verbatim>\<open>continue\<close> leaves the memory as it is.
\<close>

definition bitreversal_block_step :: "int \<Rightarrow> ptr \<Rightarrow> int \<Rightarrow> ptr \<Rightarrow> int \<Rightarrow> mem \<Rightarrow> mem" where
  "bitreversal_block_step log2n dst dst_stride tmp b m =
     (let log2m = log2n - 2 * DBCF_Q;
          pow2q = DBCF_POW2 DBCF_Q;
          ib = dbcF_bitreverse b log2m
      in if ib < b then m else
         let m1 = for_loop pow2q (\<lambda>a m. for_loop pow2q (\<lambda>c m.
                    m(tmp + (push_bit (nat DBCF_Q) a XOR c) :=
                        m (dst + (push_bit (nat (log2n - DBCF_Q)) a
                                   XOR push_bit (nat DBCF_Q) b XOR c) * dst_stride))) m) m;
             m2 = for_loop pow2q (\<lambda>c m.
                    let ic = dbcF_bitreverse c DBCF_Q
                    in for_loop pow2q (\<lambda>a m.
                         let ia = dbcF_bitreverse a DBCF_Q;
                             i = push_bit (nat (log2n - DBCF_Q)) ic
                                   XOR push_bit (nat DBCF_Q) ib XOR ia;
                             t = m (dst + i * dst_stride);
                             m = m(dst + i * dst_stride :=
                                     m (tmp + (push_bit (nat DBCF_Q) a XOR c)))
                         in m(tmp + (push_bit (nat DBCF_Q) a XOR c) := t)) m) m1
         in if b \<noteq> ib then
              for_loop pow2q (\<lambda>a m. for_loop pow2q (\<lambda>c m.
                m(dst + (push_bit (nat (log2n - DBCF_Q)) a
                           XOR push_bit (nat DBCF_Q) b XOR c) * dst_stride :=
                    m (tmp + (push_bit (nat DBCF_Q) a XOR c)))) m) m2
            else m2)"

function dbcF_bitreversal_permutation ::
  "int \<Rightarrow> ptr \<Rightarrow> int \<Rightarrow> ptr \<Rightarrow> int \<Rightarrow> ptr \<Rightarrow> mem \<Rightarrow> mem" where
  "dbcF_bitreversal_permutation log2n src src_stride dst dst_stride tmp m =
     (let n = DBCF_POW2 log2n;
          h = drop_bit 1 n
      in if src_stride = 0 then
           let x = m src
           in for_loop n (\<lambda>i m. m(dst + i * dst_stride := x)) m
         else if src = dst then
           if log2n \<le> 8 then
             for_loop n (\<lambda>i m.
               let j = dbcF_bitreverse_table ! nat (DBCF_POW2 log2n + i)
               in if i < j then
                    let x = m (dst + i * dst_stride);
                        y = m (dst + j * dst_stride);
                        m = m(dst + i * dst_stride := y)
                    in m(dst + j * dst_stride := x)
                  else m) m
           else if log2n \<le> 2 * DBCF_Q + 2 \<or> log2n \<le> 16 then
             let m1 = dbcF_bitreversal_swap (log2n - 2) (dst + dst_stride) (2 * dst_stride)
                        (dst + h * dst_stride) (2 * dst_stride) m;
                 m2 = dbcF_bitreversal_permutation (log2n - 2) dst (2 * dst_stride)
                        dst (2 * dst_stride) tmp m1
             in dbcF_bitreversal_permutation (log2n - 2) (dst + (h + 1) * dst_stride)
                  (2 * dst_stride) (dst + (h + 1) * dst_stride) (2 * dst_stride) tmp m2
           else
             let log2m = log2n - 2 * DBCF_Q;
                 mm = DBCF_POW2 log2m
             in for_loop mm (bitreversal_block_step log2n dst dst_stride tmp) m
         else
           if log2n \<le> 8 then
             for_loop n (\<lambda>i m.
               let j = dbcF_bitreverse_table ! nat (DBCF_POW2 log2n + i)
               in m(dst + j * dst_stride := m (src + i * src_stride))) m
           else if log2n \<le> 16 then
             let m1 = dbcF_bitreversal_permutation (log2n - 1) src (2 * src_stride)
                        dst dst_stride tmp m
             in dbcF_bitreversal_permutation (log2n - 1) (src + src_stride) (2 * src_stride)
                  (dst + h * dst_stride) dst_stride tmp m1
           else
             let m1 = for_loop h (\<lambda>i m.
                        let m = m(dst + i * dst_stride := m (src + (2 * i) * src_stride))
                        in m(dst + (i + h) * dst_stride := m (src + (2 * i + 1) * src_stride))) m;
                 m2 = dbcF_bitreversal_permutation (log2n - 1) dst dst_stride
                        dst dst_stride tmp m1
             in dbcF_bitreversal_permutation (log2n - 1) (dst + h * dst_stride) dst_stride
                  (dst + h * dst_stride) dst_stride tmp m2)"
  by pat_completeness auto
termination
  by (relation "measure (\<lambda>(log2n, src, src_stride, dst, dst_stride, tmp, m). nat log2n)") auto

declare dbcF_bitreversal_permutation.simps [simp del]

section \<open>Butterflies\<close>

text \<open>The sixteen stores of \<^verbatim>\<open>dbcF_fft8\<close>, in the order of the source.\<close>

definition fft8_store ::
  "ptr \<Rightarrow> ptr \<Rightarrow> int \<Rightarrow> int \<Rightarrow> (real \<times> real) list \<Rightarrow> mem \<Rightarrow> mem" where
  "fft8_store re im real_stride imag_stride vs m =
     fold (\<lambda>(k, (x, y)) m. (m(re + int k * real_stride := x))(im + int k * imag_stride := y))
       (enumerate 0 vs) m"

definition dbcF_fft8 :: "ptr \<Rightarrow> ptr \<Rightarrow> int \<Rightarrow> int \<Rightarrow> bool \<Rightarrow> real \<Rightarrow> mem \<Rightarrow> mem" where
  "dbcF_fft8 re im real_stride imag_stride is_inverse c m =
     (let r0 = m (re + 0 * real_stride); i0 = m (im + 0 * imag_stride);
          r1 = m (re + 1 * real_stride); i1 = m (im + 1 * imag_stride);
          r2 = m (re + 2 * real_stride); i2 = m (im + 2 * imag_stride);
          r3 = m (re + 3 * real_stride); i3 = m (im + 3 * imag_stride);
          r4 = m (re + 4 * real_stride); i4 = m (im + 4 * imag_stride);
          r5 = m (re + 5 * real_stride); i5 = m (im + 5 * imag_stride);
          r6 = m (re + 6 * real_stride); i6 = m (im + 6 * imag_stride);
          r7 = m (re + 7 * real_stride); i7 = m (im + 7 * imag_stride);
          R0 = r0 + r1; R1 = r0 - r1; I0 = i0 + i1; I1 = i0 - i1;
          R2 = r2 + r3; R3 = r2 - r3; I2 = i2 + i3; I3 = i2 - i3;
          R4 = r4 + r5; R5 = r4 - r5; I4 = i4 + i5; I5 = i4 - i5;
          R6 = r6 + r7; R7 = r6 - r7; I6 = i6 + i7; I7 = i6 - i7
      in if \<not> is_inverse then
           let r0 = R0 + R2; i0 = I0 + I2;
               r1 = R1 + I3; i1 = I1 - R3;
               r2 = R0 - R2; i2 = I0 - I2;
               r3 = R1 - I3; i3 = I1 + R3;
               r4 = R4 + R6; i4 = I4 + I6;
               r5 = R5 + I7; i5 = I5 - R7;
               r6 = R4 - R6; i6 = I4 - I6;
               r7 = R5 - I7; i7 = I5 + R7;
               p5 = c * (r5 + i5); m5 = c * (r5 - i5);
               p7 = c * (r7 + i7); m7 = c * (r7 - i7)
           in fft8_store re im real_stride imag_stride
                [(r0 + r4, i0 + i4), (r1 + p5, i1 - m5), (r2 + i6, i2 - r6), (r3 - m7, i3 - p7),
                 (r0 - r4, i0 - i4), (r1 - p5, i1 + m5), (r2 - i6, i2 + r6), (r3 + m7, i3 + p7)] m
         else
           let r0 = R0 + R2; i0 = I0 + I2;
               r1 = R1 - I3; i1 = I1 + R3;
               r2 = R0 - R2; i2 = I0 - I2;
               r3 = R1 + I3; i3 = I1 - R3;
               r4 = R4 + R6; i4 = I4 + I6;
               r5 = R5 - I7; i5 = I5 + R7;
               r6 = R4 - R6; i6 = I4 - I6;
               r7 = R5 + I7; i7 = I5 - R7;
               p5 = c * (r5 + i5); m5 = c * (r5 - i5);
               p7 = c * (r7 + i7); m7 = c * (r7 - i7)
           in fft8_store re im real_stride imag_stride
                [(r0 + r4, i0 + i4), (r1 + m5, i1 + p5), (r2 - i6, i2 + r6), (r3 - p7, i3 + m7),
                 (r0 - r4, i0 - i4), (r1 - m5, i1 - p5), (r2 + i6, i2 - r6), (r3 + p7, i3 - m7)] m)"

text \<open>
  One radix-2 butterfly on the cells \<open>lr, li\<close> (low) and \<open>hr, hi\<close> (high) with the twiddle
  \<open>(c, s)\<close>: four loads, then four stores in the order of the source.  The loops of
  \<^verbatim>\<open>dbcF_butterfly_block\<close> and \<^verbatim>\<open>dbcF_butterfly_pass\<close> repeat these statements.
\<close>

definition butterfly_step :: "ptr \<Rightarrow> ptr \<Rightarrow> ptr \<Rightarrow> ptr \<Rightarrow> real \<Rightarrow> real \<Rightarrow> mem \<Rightarrow> mem" where
  "butterfly_step lr li hr hi c s m =
     (let xl = m lr; yl = m li;
          xr = m hr; yr = m hi;
          x = c * xr - s * yr;
          y = s * xr + c * yr
      in (((m(lr := xl + x))(li := yl + y))(hr := xl - x))(hi := yl - y))"

function dbcF_butterfly_block ::
  "config \<Rightarrow> int \<Rightarrow> int \<Rightarrow> ptr \<Rightarrow> ptr \<Rightarrow> ptr \<Rightarrow> ptr \<Rightarrow> int \<Rightarrow> int \<Rightarrow> real \<Rightarrow> real
     \<Rightarrow> bool \<Rightarrow> ptr \<Rightarrow> ptr \<Rightarrow> mem \<Rightarrow> mem" where
  "dbcF_butterfly_block cfg log2n log2b LR LI HR HI real_stride imag_stride C S is_inverse tr ti m =
     (let b = DBCF_POW2 log2b;
          h = drop_bit 1 b
      in if log2b \<le> DBCF_TWIDDLES_BUF_LOG2 then
           snd (snd (for_loop b (\<lambda>i (j, k, m).
             let c = C * m (tr + i) - S * m (ti + i);
                 s = S * m (tr + i) + C * m (ti + i)
             in (j + real_stride, k + imag_stride,
                 butterfly_step (LR + j) (LI + k) (HR + j) (HI + k) c s m)) (0, 0, m)))
         else
           let (X, Y0) = dbcF_cexp cfg (log2n - log2b + 1);
               Y = (if \<not> is_inverse then - Y0 else Y0);
               m1 = dbcF_butterfly_block cfg log2n (log2b - 1) LR LI HR HI
                      real_stride imag_stride C S is_inverse tr ti m
           in dbcF_butterfly_block cfg log2n (log2b - 1)
                (LR + h * real_stride) (LI + h * imag_stride)
                (HR + h * real_stride) (HI + h * imag_stride)
                real_stride imag_stride (C * X - S * Y) (S * X + C * Y) is_inverse tr ti m1)"
  by pat_completeness auto
termination
  by (relation "measure (\<lambda>(cfg, log2n, log2b, r). nat log2b)")
     (auto simp: DBCF_TWIDDLES_BUF_LOG2_def DBCF_TMP_BUF_LOG2_def)

declare dbcF_butterfly_block.simps [simp del]

text \<open>
  \<^verbatim>\<open>dbcF_butterfly_pass\<close>.  The state of the loop over the \<open>c\<close> blocks is the four running
  pointers and the memory; the inner loop is unrolled twice, as in the source, and carries
  the offsets \<open>j\<close> and \<open>k\<close>.
\<close>

definition dbcF_butterfly_pass ::
  "config \<Rightarrow> int \<Rightarrow> int \<Rightarrow> ptr \<Rightarrow> ptr \<Rightarrow> int \<Rightarrow> int \<Rightarrow> bool \<Rightarrow> int \<Rightarrow> ptr \<Rightarrow> ptr \<Rightarrow> mem \<Rightarrow> mem" where
  "dbcF_butterfly_pass cfg log2n log2c re im real_stride imag_stride is_inverse log2t tr ti m =
     (let n = DBCF_POW2 log2n;
          h = drop_bit 1 n;
          c = DBCF_POW2 log2c;
          LR = re; HR = re + h * real_stride;
          LI = im; HI = im + h * imag_stride;
          advance = (\<lambda>(LR, LI, HR, HI, m).
            (LR + n * real_stride, LI + n * imag_stride,
             HR + n * real_stride, HI + n * imag_stride, m))
      in if log2n = 0 then m
         else if log2n - 1 \<le> log2t then
           if h > 1 then
             snd (snd (snd (snd (for_loop c (\<lambda>i (LR, LI, HR, HI, m).
               let m = snd (snd (for_loop_step 0 2 h (\<lambda>d (j, k, m).
                         let m = butterfly_step (LR + j) (LI + k) (HR + j) (HI + k)
                                   (m (tr + d)) (m (ti + d)) m;
                             j = j + real_stride; k = k + imag_stride;
                             m = butterfly_step (LR + j) (LI + k) (HR + j) (HI + k)
                                   (m (tr + (d + 1))) (m (ti + (d + 1))) m;
                             j = j + real_stride; k = k + imag_stride
                         in (j, k, m)) (0, 0, m)))
               in advance (LR, LI, HR, HI, m)) (LR, LI, HR, HI, m)))))
           else
             snd (snd (snd (snd (for_loop c (\<lambda>i (LR, LI, HR, HI, m).
               let xl = m LR; yl = m LI;
                   xr = m HR; yr = m HI;
                   m = (((m(LR := xl + xr))(LI := yl + yr))(HR := xl - xr))(HI := yl - yr)
               in advance (LR, LI, HR, HI, m)) (LR, LI, HR, HI, m)))))
         else
           snd (snd (snd (snd (for_loop c (\<lambda>i (LR, LI, HR, HI, m).
             let m = dbcF_butterfly_block cfg log2n (log2n - 1) LR LI HR HI
                       real_stride imag_stride 1 0 is_inverse tr ti m
             in advance (LR, LI, HR, HI, m)) (LR, LI, HR, HI, m))))))"

text \<open>
  \<^verbatim>\<open>dbcF_butterfly_multipass\<close>: the loop \<^verbatim>\<open>while(depth>0)\<close>.  \<^verbatim>\<open>dbcF_cexp(3,tr,ti)\<close> stores
  into \<open>tr[0]\<close> and \<open>ti[0]\<close>, and every call of the leaf reads \<open>tr[0]\<close> again.
\<close>

function dbcF_butterfly_multipass ::
  "config \<Rightarrow> int \<Rightarrow> int \<Rightarrow> int \<Rightarrow> ptr \<Rightarrow> ptr \<Rightarrow> int \<Rightarrow> int \<Rightarrow> bool \<Rightarrow> ptr \<Rightarrow> ptr \<Rightarrow> mem \<Rightarrow> mem" where
  "dbcF_butterfly_multipass cfg log2n log2c depth re im real_stride imag_stride is_inverse tr ti m =
     (if depth > 0 then
        if depth = log2n \<and> depth \<ge> 3 then
          let mm = DBCF_POW2 (log2n + log2c - 3);
              (x, y) = dbcF_cexp cfg 3;
              m1 = (m(tr := x))(ti := y);
              m2 = for_loop mm (\<lambda>j m.
                     dbcF_fft8 (re + 8 * real_stride * j) (im + 8 * imag_stride * j)
                       real_stride imag_stride is_inverse (m tr) m) m1
          in dbcF_butterfly_multipass cfg log2n log2c (depth - 3) re im
               real_stride imag_stride is_inverse tr ti m2
        else
          let log2d = log2n - depth + 1;
              log2t = (if log2d - 1 < DBCF_TWIDDLES_BUF_LOG2 then log2d - 1
                       else DBCF_TWIDDLES_BUF_LOG2);
              m1 = dbcF_compute_twiddles cfg log2d log2t tr ti is_inverse m;
              m2 = dbcF_butterfly_pass cfg log2d (log2c + log2n - log2d) re im
                     real_stride imag_stride is_inverse log2t tr ti m1
          in dbcF_butterfly_multipass cfg log2n log2c (depth - 1) re im
               real_stride imag_stride is_inverse tr ti m2
      else m)"
  by pat_completeness auto
termination
  by (relation "measure (\<lambda>(cfg, log2n, log2c, depth, r). nat depth)") auto

declare dbcF_butterfly_multipass.simps [simp del]

function dbcF_butterfly ::
  "config \<Rightarrow> int \<Rightarrow> ptr \<Rightarrow> ptr \<Rightarrow> int \<Rightarrow> int \<Rightarrow> bool \<Rightarrow> ptr \<Rightarrow> mem \<Rightarrow> mem" where
  "dbcF_butterfly cfg log2n re im real_stride imag_stride is_inverse tmp m =
     (let tr = tmp;
          ti = tmp + DBCF_TWIDDLES_BUF_SIZE
      in if log2n > 12 then
           let m1 = dbcF_butterfly cfg (log2n - 1) re im real_stride imag_stride is_inverse tmp m;
               m2 = dbcF_butterfly cfg (log2n - 1)
                      (re + DBCF_POW2 (log2n - 1) * real_stride)
                      (im + DBCF_POW2 (log2n - 1) * imag_stride)
                      real_stride imag_stride is_inverse tmp m1
           in dbcF_butterfly_multipass cfg log2n 0 1 re im real_stride imag_stride
                is_inverse tr ti m2
         else
           dbcF_butterfly_multipass cfg log2n 0 log2n re im real_stride imag_stride
             is_inverse tr ti m)"
  by pat_completeness auto
termination
  by (relation "measure (\<lambda>(cfg, log2n, r). nat log2n)") auto

declare dbcF_butterfly.simps [simp del]

section \<open>Drivers\<close>

text \<open>
  \<^verbatim>\<open>while(n) {n>>=1;++log2n;}\<close> of the power-of-two driver.  On a negative \<open>n\<close> the loop
  of the source never ends (\<open>n\<close> stays \<open>- 1\<close>): the result is \<open>None\<close> then.
\<close>

partial_function (option) dbcF_fft_pot_log2 :: "int \<Rightarrow> int \<Rightarrow> int option" where
  "dbcF_fft_pot_log2 n log2n =
     (if n \<noteq> 0 then dbcF_fft_pot_log2 (drop_bit 1 n) (log2n + 1) else Some log2n)"

text \<open>
  \<^verbatim>\<open>dbcF_fft_pot\<close>.  The driver is reached with \<open>num_elements \<ge> 1\<close> only; the permutation
  then stores through both destination pointers, so a null destination is a null
  dereference.  The final loop scales the cells \<open>dst_real[i]\<close> and \<open>dst_imag[i]\<close>, as the
  source does.
\<close>

definition dbcF_fft_pot ::
  "config \<Rightarrow> int \<Rightarrow> ptr \<Rightarrow> ptr \<Rightarrow> int \<Rightarrow> int \<Rightarrow> ptr \<Rightarrow> ptr \<Rightarrow> int \<Rightarrow> int \<Rightarrow> bool \<Rightarrow> real
     \<Rightarrow> mem \<Rightarrow> outcome" where
  "dbcF_fft_pot cfg num_elements src_real src_imag src_real_stride src_imag_stride
       dst_real dst_imag dst_real_stride dst_imag_stride is_inverse scale m0 =
     (let dummy = cfg_dummy cfg;
          tmp = cfg_tmp cfg;
          m1 = (m0(dummy := 0))(dummy + 1 := 0)
      in case dbcF_fft_pot_log2 num_elements (- 1) of
           None \<Rightarrow> Diverges
         | Some log2n \<Rightarrow>
             let (src_real, src_real_stride) =
                   (if src_real = NULL then (dummy, 0) else (src_real, src_real_stride));
                 (src_imag, src_imag_stride) =
                   (if src_imag = NULL then (dummy + 1, 0) else (src_imag, src_imag_stride))
             in if dst_real = NULL \<or> dst_imag = NULL then Null_dereference else
                let m2 = dbcF_bitreversal_permutation log2n src_real src_real_stride
                           dst_real dst_real_stride tmp m1;
                    m3 = dbcF_bitreversal_permutation log2n src_imag src_imag_stride
                           dst_imag dst_imag_stride tmp m2;
                    m4 = dbcF_butterfly cfg log2n dst_real dst_imag
                           dst_real_stride dst_imag_stride is_inverse tmp m3;
                    m5 = (if scale \<noteq> 1 then
                            for_loop num_elements (\<lambda>i m.
                              let m = m(dst_real + i := m (dst_real + i) * scale)
                              in m(dst_imag + i := m (dst_imag + i) * scale)) m4
                          else m4)
                in Returns 0 m5)"

text \<open>\<^verbatim>\<open>while(DBCF_POW2(log2m)<2*n-1) {++log2m;M=M+M;}\<close> of the Bluestein driver.\<close>

function dbcF_fft_npot_size :: "int \<Rightarrow> int \<Rightarrow> real \<Rightarrow> int \<times> real" where
  "dbcF_fft_npot_size n log2m M =
     (if DBCF_POW2 log2m < 2 * n - 1 then dbcF_fft_npot_size n (log2m + 1) (M + M)
      else (log2m, M))"
  by pat_completeness auto
termination
proof (relation "measure (\<lambda>(n, log2m, M). nat (2 * n - 1 - DBCF_POW2 log2m) + nat (- log2m))",
    goal_cases)
  case 1
  show ?case by simp
next
  case (2 n log2m M)
  have "(2::int) ^ nat log2m < 2 ^ nat (log2m + 1)" if "0 \<le> log2m"
    using that by (simp add: nat_add_distrib)
  with 2 show ?case
    by (cases "0 \<le> log2m") (auto simp: DBCF_POW2_def push_bit_eq_mult)
qed

declare dbcF_fft_npot_size.simps [simp del]

text \<open>The calls of the power-of-two driver inside the Bluestein driver drop the return code.\<close>

definition and_then :: "outcome \<Rightarrow> (mem \<Rightarrow> outcome) \<Rightarrow> outcome" where
  "and_then r f = (case r of Returns code m \<Rightarrow> f m | Null_dereference \<Rightarrow> Null_dereference
                   | Diverges \<Rightarrow> Diverges)"

text \<open>
  \<^verbatim>\<open>dbcF_fft_npot\<close>, with \<open>alignment = 0\<close> (no SIMD back-end), so \<open>buf = mem\<close>.  The request to
  the allocator is counted in elements.  The first loop loads \<open>src_real[..]\<close> and
  \<open>src_imag[..]\<close> with no test for null, the last one stores through the destination
  pointers.  \<^verbatim>\<open>dbcf_free\<close> leaves the store as it is.
\<close>

definition dbcF_fft_npot ::
  "config \<Rightarrow> int \<Rightarrow> ptr \<Rightarrow> ptr \<Rightarrow> int \<Rightarrow> int \<Rightarrow> ptr \<Rightarrow> ptr \<Rightarrow> int \<Rightarrow> int \<Rightarrow> bool \<Rightarrow> real
     \<Rightarrow> mem \<Rightarrow> outcome" where
  "dbcF_fft_npot cfg n src_real src_imag src_real_stride src_imag_stride
       dst_real dst_imag dst_real_stride dst_imag_stride is_inverse scale m0 =
     (let (log2m, M) = dbcF_fft_npot_size n 0 1;
          mm = DBCF_POW2 log2m;
          mem = cfg_malloc cfg (4 * mm + 4 * n)
      in if mem = NULL then Returns DBCF_ERROR_OUT_OF_MEMORY m0 else
         let buf = mem;
             ar = buf + 0 * mm;
             ai = buf + 1 * mm;
             br = buf + 2 * mm;
             bi = buf + 3 * mm;
             tr = buf + 4 * mm + 0 * n;
             ti = buf + 4 * mm + 2 * n;
             m1 = dbcF_compute_twiddles_npot cfg (2 * n) tr ti is_inverse m0
         in if 0 < n \<and> (src_real = NULL \<or> src_imag = NULL) then Null_dereference else
            let m2 = snd (for_loop n (\<lambda>i (j, m).
                       let c = m (tr + j); s = m (ti + j);
                           x = m (src_real + i * src_real_stride);
                           y = m (src_imag + i * src_imag_stride);
                           m = m(ar + i := x * c - y * s);
                           m = m(ai + i := x * s + y * c);
                           m = m(br + i := c);
                           m = m(bi + i := - s);
                           m = (if i > 0 then (m(br + (mm - i) := c))(bi + (mm - i) := - s) else m);
                           j = j + (2 * i + 1);
                           j = (if j \<ge> 2 * n then j - 2 * n else j)
                       in (j, m)) (0, m1));
                m3 = for_loop_step n 1 mm (\<lambda>i m. (m(ar + i := 0))(ai + i := 0)) m2;
                m4 = for_loop_step n 1 (mm - n + 1) (\<lambda>i m. (m(br + i := 0))(bi + i := 0)) m3
            in and_then (dbcF_fft_pot cfg mm ar ai 1 1 ar ai 1 1 False (1 / M) m4) (\<lambda>m5.
               and_then (dbcF_fft_pot cfg mm br bi 1 1 br bi 1 1 False 1 m5) (\<lambda>m6.
                 let m7 = for_loop mm (\<lambda>i m.
                            let c = m (br + i); s = m (bi + i); x = m (ar + i); y = m (ai + i);
                                m = m(ar + i := c * x - s * y)
                            in m(ai + i := c * y + s * x)) m6
                 in and_then (dbcF_fft_pot cfg mm ar ai 1 1 ar ai 1 1 True scale m7) (\<lambda>m8.
                      if 0 < n \<and> (dst_real = NULL \<or> dst_imag = NULL) then Null_dereference else
                      let m9 = snd (for_loop n (\<lambda>i (j, m).
                                 let c = m (tr + j); s = m (ti + j);
                                     x = m (ar + i); y = m (ai + i);
                                     m = m(dst_real + i * dst_real_stride := c * x - s * y);
                                     m = m(dst_imag + i * dst_imag_stride := c * y + s * x);
                                     j = j + (2 * i + 1);
                                     j = (if j \<ge> 2 * n then j - 2 * n else j)
                                 in (j, m)) (0, m8))
                      in Returns 0 m9))))"

text \<open>
  \<^verbatim>\<open>dbcF_fft\<close>, the entry surface.  \<^verbatim>\<open>dbcF_init\<close> only fills the SIMD cache, which this
  configuration does not have.
\<close>

definition dbcF_fft ::
  "config \<Rightarrow> int \<Rightarrow> ptr \<Rightarrow> ptr \<Rightarrow> int \<Rightarrow> int \<Rightarrow> ptr \<Rightarrow> ptr \<Rightarrow> int \<Rightarrow> int \<Rightarrow> bool \<Rightarrow> real
     \<Rightarrow> mem \<Rightarrow> outcome" where
  "dbcF_fft cfg num_elements src_real src_imag src_real_stride src_imag_stride
       dst_real dst_imag dst_real_stride dst_imag_stride is_inverse scale m =
     (if num_elements < 1 then Returns 0 m
      else if src_real = dst_real \<and> src_real_stride \<noteq> dst_real_stride
        then Returns DBCF_ERROR_INVALID_ARGUMENT m
      else if src_imag = dst_imag \<and> src_imag_stride \<noteq> dst_imag_stride
        then Returns DBCF_ERROR_INVALID_ARGUMENT m
      else if src_imag = dst_real then Returns DBCF_ERROR_INVALID_ARGUMENT m
      else if src_real = dst_imag then Returns DBCF_ERROR_INVALID_ARGUMENT m
      else if num_elements AND (num_elements - 1) \<noteq> 0 then
        dbcF_fft_npot cfg num_elements src_real src_imag src_real_stride src_imag_stride
          dst_real dst_imag dst_real_stride dst_imag_stride is_inverse scale m
      else
        dbcF_fft_pot cfg num_elements src_real src_imag src_real_stride src_imag_stride
          dst_real dst_imag dst_real_stride dst_imag_stride is_inverse scale m)"

text \<open>The six public entry points of one instantiation.\<close>

definition dbc_fft_c :: "config \<Rightarrow> int \<Rightarrow> ptr \<Rightarrow> ptr \<Rightarrow> ptr \<Rightarrow> ptr \<Rightarrow> real \<Rightarrow> mem \<Rightarrow> outcome" where
  "dbc_fft_c cfg num_elements src_real src_imag dst_real dst_imag scale m =
     dbcF_fft cfg num_elements src_real src_imag 1 1 dst_real dst_imag 1 1 False scale m"

definition dbc_ifft_c :: "config \<Rightarrow> int \<Rightarrow> ptr \<Rightarrow> ptr \<Rightarrow> ptr \<Rightarrow> ptr \<Rightarrow> real \<Rightarrow> mem \<Rightarrow> outcome" where
  "dbc_ifft_c cfg num_elements src_real src_imag dst_real dst_imag scale m =
     dbcF_fft cfg num_elements src_real src_imag 1 1 dst_real dst_imag 1 1 True scale m"

definition dbc_fft_i :: "config \<Rightarrow> int \<Rightarrow> ptr \<Rightarrow> ptr \<Rightarrow> real \<Rightarrow> mem \<Rightarrow> outcome" where
  "dbc_fft_i cfg num_elements src dst scale m =
     dbcF_fft cfg num_elements
       src (if src \<noteq> NULL then src + 1 else src)
       (if src \<noteq> NULL then 2 else 0) (if src \<noteq> NULL then 2 else 0)
       dst (dst + 1)
       (if src \<noteq> NULL then 2 else 0) (if src \<noteq> NULL then 2 else 0)
       False scale m"

definition dbc_ifft_i :: "config \<Rightarrow> int \<Rightarrow> ptr \<Rightarrow> ptr \<Rightarrow> real \<Rightarrow> mem \<Rightarrow> outcome" where
  "dbc_ifft_i cfg num_elements src dst scale m =
     dbcF_fft cfg num_elements
       src (if src \<noteq> NULL then src + 1 else src)
       (if src \<noteq> NULL then 2 else 0) (if src \<noteq> NULL then 2 else 0)
       dst (dst + 1)
       (if src \<noteq> NULL then 2 else 0) (if src \<noteq> NULL then 2 else 0)
       True scale m"

definition dbc_fft_s ::
  "config \<Rightarrow> int \<Rightarrow> ptr \<Rightarrow> ptr \<Rightarrow> int \<Rightarrow> int \<Rightarrow> ptr \<Rightarrow> ptr \<Rightarrow> int \<Rightarrow> int \<Rightarrow> real \<Rightarrow> mem \<Rightarrow> outcome" where
  "dbc_fft_s cfg num_elements src_real src_imag src_real_stride src_imag_stride
       dst_real dst_imag dst_real_stride dst_imag_stride scale m =
     dbcF_fft cfg num_elements src_real src_imag src_real_stride src_imag_stride
       dst_real dst_imag dst_real_stride dst_imag_stride False scale m"

definition dbc_ifft_s ::
  "config \<Rightarrow> int \<Rightarrow> ptr \<Rightarrow> ptr \<Rightarrow> int \<Rightarrow> int \<Rightarrow> ptr \<Rightarrow> ptr \<Rightarrow> int \<Rightarrow> int \<Rightarrow> real \<Rightarrow> mem \<Rightarrow> outcome" where
  "dbc_ifft_s cfg num_elements src_real src_imag src_real_stride src_imag_stride
       dst_real dst_imag dst_real_stride dst_imag_stride scale m =
     dbcF_fft cfg num_elements src_real src_imag src_real_stride src_imag_stride
       dst_real dst_imag dst_real_stride dst_imag_stride True scale m"

section \<open>Notions used in the statements\<close>

text \<open>
  The reversal of the low \<open>k\<close> bits of \<open>i\<close>, as a function on natural numbers: bit \<open>n\<close> of
  the result is bit \<open>k - 1 - n\<close> of \<open>i\<close>.
\<close>

fun bitrev :: "nat \<Rightarrow> nat \<Rightarrow> nat" where
  "bitrev 0 i = 0"
| "bitrev (Suc k) i = (i mod 2) * 2 ^ k + bitrev k (i div 2)"


text \<open>The macros \<^verbatim>\<open>DBCF_R1\<close> .. \<^verbatim>\<open>DBCF_R8\<close> as one recursion over the level.\<close>

fun Rk :: "nat \<Rightarrow> int \<Rightarrow> int \<Rightarrow> int list" where
  "Rk 0 n c = [n]"
| "Rk (Suc k) n c = Rk k n (2 * c) @ Rk k (n + c) (2 * c)"


text \<open>The return code of an outcome, and the cells of the memory it leaves.\<close>

definition outcome_code :: "outcome \<Rightarrow> int option" where
  "outcome_code r = (case r of Returns code m \<Rightarrow> Some code | _ \<Rightarrow> None)"

definition outcome_cells :: "outcome \<Rightarrow> int list \<Rightarrow> real list" where
  "outcome_cells r as = (case r of Returns code m \<Rightarrow> map m as | _ \<Rightarrow> [])"

text \<open>
  Concrete surroundings for the examples: the built-in seed routines, the local arrays of
  the driver at the addresses 1000 and 2000, and an allocator that fails
  (\<open>example_config\<close>) or gives the block at the address 5000 (\<open>example_config_heap\<close>).
\<close>

definition example_config :: config where
  "example_config = \<lparr>cfg_cexpm1 = None, cfg_cexpm1_npot = None, cfg_malloc = (\<lambda>n. NULL),
     cfg_dummy = 1000, cfg_tmp = 2000\<rparr>"

definition example_config_heap :: config where
  "example_config_heap = \<lparr>cfg_cexpm1 = None, cfg_cexpm1_npot = None, cfg_malloc = (\<lambda>n. 5000),
     cfg_dummy = 1000, cfg_tmp = 2000\<rparr>"

text \<open>
  A memory holding the real parts \<open>1, 3\<close> at the addresses 100 and 101, zero imaginary parts
  at 200 and 201, and the values 7 and 9 in the cells 301 and 401.
\<close>

definition example_mem :: mem where
  "example_mem a = (if a = 100 then 1 else if a = 101 then 3 else if a = 301 then 7
                    else if a = 401 then 9 else 0)"

text \<open>A memory holding \<open>5, 6, 7, 8\<close> at the addresses 300 .. 303.\<close>

definition example_mem_interleaved :: mem where
  "example_mem_interleaved a = (if a = 300 then 5 else if a = 301 then 6 else if a = 302 then 7
                                else if a = 303 then 8 else 0)"

text \<open>
  What the seed routine \<^verbatim>\<open>dbcF_cexpm1\<close> approximates: \<open>exp(2\<pi>i/2^k) - 1\<close>, as the pair of
  its real and imaginary parts.
\<close>

definition exact_cexpm1 :: "int \<Rightarrow> real \<times> real" where
  "exact_cexpm1 k = (cos (2 * pi / 2 ^ nat k) - 1, sin (2 * pi / 2 ^ nat k))"

text \<open>The sign of the exponent: \<open>- 1\<close> for the forward transform, \<open>1\<close> for the inverse.\<close>

definition tw_sign :: "bool \<Rightarrow> real" where
  "tw_sign is_inverse = (if is_inverse then 1 else - 1)"

text \<open>The body of the outer loop of \<^verbatim>\<open>dbcF_compute_twiddles\<close>.\<close>

definition twiddle_outer_body :: "config \<Rightarrow> int \<Rightarrow> ptr \<Rightarrow> ptr \<Rightarrow> bool \<Rightarrow> int \<Rightarrow> mem \<Rightarrow> mem" where
  "twiddle_outer_body cfg log2n re im is_inverse = (\<lambda>i m.
                 let k = DBCF_POW2 i;
                     (x, y0) = dbcF_cexpm1 cfg (log2n - i);
                     y = (if \<not> is_inverse then - y0 else y0)
                 in for_loop k (twiddle_step re im x y k) m)"


text \<open>The address of element \<open>k\<close> of the array at \<open>p\<close> with stride \<open>s\<close>.\<close>

definition cell :: "int \<Rightarrow> int \<Rightarrow> nat \<Rightarrow> int" where
  "cell p s k = p + int k * s"


section \<open>The bit-reverse helper\<close>

lemma bitrev_less: "bitrev k i < 2 ^ k"
proof (induction k arbitrary: i)
  case 0 show ?case by simp
next
  case (Suc k)
  show ?case using Suc[of "i div 2"] by (cases "even i") (simp_all add: mod_2_eq_odd)
qed

lemma bit_less_exp_nat: "(x::nat) < 2 ^ k \<Longrightarrow> bit x n \<Longrightarrow> n < k"
  by (metis bit_take_bit_iff take_bit_nat_eq_self)

lemma bit_exp_plus_nat: 
  assumes "(x::nat) < 2 ^ k" shows "bit (2 ^ k + x) n \<longleftrightarrow> n = k \<or> bit x n"
proof -
  have "(2::nat) ^ k AND x = 0"
    by (rule bit_eqI) (use assms in \<open>auto simp: bit_and_iff bit_exp_iff dest: bit_less_exp_nat\<close>)
  then have "2 ^ k + x = 2 ^ k OR x" by (rule disjunctive_add_eq_or)
  then show ?thesis by (auto simp: bit_or_iff bit_exp_iff)
qed

lemma bit_bitrev: "bit (bitrev k i) n \<longleftrightarrow> n < k \<and> bit i (k - 1 - n)"
proof (induction k arbitrary: i n)
  case 0 show ?case by simp
next
  case (Suc k)
  have lt: "bitrev k (i div 2) < 2 ^ k" by (rule bitrev_less)
  have shift: "bit (i div 2) (k - 1 - n) = bit i (k - n)" if "n < k"
    using that bit_Suc[of i "k - 1 - n"] by (simp add: Suc_diff_Suc)
  show ?case
  proof (cases "even i")
    case True
    then have "bitrev (Suc k) i = bitrev k (i div 2)" by (simp add: mod_2_eq_odd)
    then show ?thesis using True shift 
      by (cases "n = k") (auto simp: Suc.IH bit_0 less_Suc_eq)
  next
    case False
    then have "bitrev (Suc k) i = 2 ^ k + bitrev k (i div 2)" by (simp add: mod_2_eq_odd)
    then show ?thesis using False shift
      by (cases "n = k") (auto simp: bit_exp_plus_nat[OF lt] Suc.IH bit_0 less_Suc_eq)
  qed
qed

lemma bitrev_msb:
  "i < 2 ^ Suc k \<Longrightarrow>
     bitrev (Suc k) i = (if i < 2 ^ k then 2 * bitrev k i else 1 + 2 * bitrev k (i - 2 ^ k))"
proof (induction k arbitrary: i)
  case 0
  then have "i = 0 \<or> i = 1" by auto
  then show ?case by auto
next
  case (Suc k)
  have d: "i div 2 < 2 ^ Suc k" using Suc.prems by auto
  show ?case
  proof (cases "i < 2 ^ Suc k")
    case True
    then have "i div 2 < 2 ^ k" by auto
    with True show ?thesis
      unfolding bitrev.simps(2)[of "Suc k" i] Suc.IH[OF d] by (simp add: algebra_simps)
  next
    case False
    define j where "j = i - 2 ^ Suc k"
    have i: "i = 2 * 2 ^ k + j" using False by (simp add: j_def)
    have "\<not> i div 2 < 2 ^ k" using False by auto
    moreover have "i div 2 - 2 ^ k = j div 2" "i mod 2 = j mod 2" "i - 2 ^ Suc k = j"
      by (simp_all add: i)
    ultimately show ?thesis using False
      unfolding bitrev.simps(2)[of "Suc k" i] Suc.IH[OF d] by (simp add: algebra_simps)
  qed
qed

lemma length_Rk: "length (Rk k n c) = 2 ^ k"
  by (induction k arbitrary: n c) simp_all

lemma nth_Rk: "i < 2 ^ k \<Longrightarrow> Rk k n c ! i = n + c * int (bitrev k i)"
proof (induction k arbitrary: n c i)
  case 0
  then show ?case by simp
next
  case (Suc k)
  have "i - 2 ^ k < 2 ^ k" if "\<not> i < 2 ^ k" using that Suc.prems by simp
  then show ?case
    unfolding bitrev_msb[OF Suc.prems] Rk.simps
    by (auto simp: nth_append length_Rk Suc.IH algebra_simps)
qed

lemma DBCF_R_eq:
  "DBCF_R1 = Rk 1" "DBCF_R2 = Rk 2" "DBCF_R3 = Rk 3" "DBCF_R4 = Rk 4"
  "DBCF_R5 = Rk 5" "DBCF_R6 = Rk 6" "DBCF_R7 = Rk 7" "DBCF_R8 = Rk 8"
proof -
  show 1: "DBCF_R1 = Rk 1" by (intro ext) (simp add: DBCF_R1_def)
  show 2: "DBCF_R2 = Rk 2" by (intro ext) (simp add: DBCF_R2_def 1 eval_nat_numeral)
  show 3: "DBCF_R3 = Rk 3" by (intro ext) (simp add: DBCF_R3_def 2 eval_nat_numeral)
  show 4: "DBCF_R4 = Rk 4" by (intro ext) (simp add: DBCF_R4_def 3 eval_nat_numeral)
  show 5: "DBCF_R5 = Rk 5" by (intro ext) (simp add: DBCF_R5_def 4 eval_nat_numeral)
  show 6: "DBCF_R6 = Rk 6" by (intro ext) (simp add: DBCF_R6_def 5 eval_nat_numeral)
  show 7: "DBCF_R7 = Rk 7" by (intro ext) (simp add: DBCF_R7_def 6 eval_nat_numeral)
  show 8: "DBCF_R8 = Rk 8" by (intro ext) (simp add: DBCF_R8_def 7 eval_nat_numeral)
qed

lemma table_nth:
  assumes "b \<le> 8" "i < 2 ^ b"
  shows "dbcF_bitreverse_table ! (2 ^ b + i) = int (bitrev b i)"
proof -
  from assms(1) consider "b = 0" | "b = 1" | "b = 2" | "b = 3" | "b = 4" | "b = 5" | "b = 6"
    | "b = 7" | "b = 8" by linarith
  then show ?thesis
  proof cases
    case 1 with assms show ?thesis by (simp add: dbcF_bitreverse_table_def)
  next
    case 2 with assms nth_Rk[of i 1 0 1] show ?thesis
      by (simp add: dbcF_bitreverse_table_def DBCF_R_eq nth_append length_Rk del: Rk.simps bitrev.simps)
  next
    case 3 with assms nth_Rk[of i 2 0 1] show ?thesis
      by (simp add: dbcF_bitreverse_table_def DBCF_R_eq nth_append length_Rk del: Rk.simps bitrev.simps)
  next
    case 4 with assms nth_Rk[of i 3 0 1] show ?thesis
      by (simp add: dbcF_bitreverse_table_def DBCF_R_eq nth_append length_Rk del: Rk.simps bitrev.simps)
  next
    case 5 with assms nth_Rk[of i 4 0 1] show ?thesis
      by (simp add: dbcF_bitreverse_table_def DBCF_R_eq nth_append length_Rk del: Rk.simps bitrev.simps)
  next
    case 6 with assms nth_Rk[of i 5 0 1] show ?thesis
      by (simp add: dbcF_bitreverse_table_def DBCF_R_eq nth_append length_Rk del: Rk.simps bitrev.simps)
  next
    case 7 with assms nth_Rk[of i 6 0 1] show ?thesis
      by (simp add: dbcF_bitreverse_table_def DBCF_R_eq nth_append length_Rk del: Rk.simps bitrev.simps)
  next
    case 8 with assms nth_Rk[of i 7 0 1] show ?thesis
      by (simp add: dbcF_bitreverse_table_def DBCF_R_eq nth_append length_Rk del: Rk.simps bitrev.simps)
  next
    case 9 with assms nth_Rk[of i 8 0 1] show ?thesis
      by (simp add: dbcF_bitreverse_table_def DBCF_R_eq nth_append length_Rk del: Rk.simps bitrev.simps)
  qed
qed

lemma bit_less_exp_int: "0 \<le> (x::int) \<Longrightarrow> x < 2 ^ k \<Longrightarrow> bit x n \<Longrightarrow> n < k"
  by (metis bit_take_bit_iff take_bit_int_eq_self)

lemma bit_int_bitrev: "bit (int (bitrev k i)) n \<longleftrightarrow> n < k \<and> bit i (k - 1 - n)"
  by (simp add: bit_of_nat_iff_bit bit_bitrev)

text \<open>A byte shifted to the top of at most 63 bits stays within the index type.\<close>

lemma index_shl_byte:
  assumes "0 \<le> x" "x < 2 ^ 8" "8 < bits" "bits \<le> 63"
  shows "index_shl x (bits - 8) = push_bit (nat (bits - 8)) x"
proof -
  define n where "n = nat (bits - 8)"
  have n: "n + 8 \<le> 63" using assms(3,4) by (simp add: n_def)
  have "x * 2 ^ n < 2 ^ 8 * 2 ^ n" using assms(2) by simp
  also have "\<dots> = 2 ^ (n + 8)" by (simp add: power_add)
  also have "\<dots> \<le> (2::int) ^ 63" using n by (intro power_increasing) simp_all
  finally have "x * 2 ^ n < 2 ^ 63" .
  moreover have "- (2 ^ 63) \<le> x * 2 ^ n" using assms(1) by (simp add: order_trans[of _ 0])
  ultimately have "signed_take_bit 63 (x * 2 ^ n) = x * 2 ^ n"
    by (intro signed_take_bit_int_eq_self) simp_all
  moreover have "(bits - 8) mod 64 = bits - 8" using assms(3,4) by simp
  ultimately show ?thesis by (simp add: index_shl_def push_bit_eq_mult n_def)
qed

lemma bit_dbcF_bitreverse:
  "0 \<le> bits \<Longrightarrow> 0 \<le> i \<Longrightarrow> i < 2 ^ nat bits \<Longrightarrow> bits \<le> 63 \<Longrightarrow>
     bit (dbcF_bitreverse i bits) n \<longleftrightarrow> n < nat bits \<and> bit i (nat bits - 1 - n)"
proof (induction i bits arbitrary: n rule: dbcF_bitreverse.induct)
  case (1 i bits)
  show ?case
  proof (cases "bits \<le> 8")
    case True
    have "nat (DBCF_POW2 bits + i) = 2 ^ nat bits + nat i"
      using 1(2,3) by (simp add: DBCF_POW2_def push_bit_eq_mult nat_add_distrib nat_power_eq)
    moreover have "nat i < 2 ^ nat bits" using 1(3,4) by (simp add: nat_less_iff)
    moreover have "nat bits \<le> 8" using True by simp
    ultimately have "dbcF_bitreverse i bits = int (bitrev (nat bits) (nat i))"
      using True by (simp add: dbcF_bitreverse.simps[of i bits] table_nth del: bitrev.simps)
    then show ?thesis using 1(3) by (simp add: bit_int_bitrev bit_nat_iff del: bitrev.simps)
  next
    case False
    define b where "b = nat (bits - 8)"
    have bits: "nat bits = b + 8" using False by (simp add: b_def)
    have m255: "(255::int) = mask 8" by (simp add: mask_eq_exp_minus_1)
    have lo: "0 \<le> i AND 255" "i AND 255 < 2 ^ 8"
      unfolding m255 using take_bit_int_less_exp[of 8 i] by (simp_all add: take_bit_eq_mask[symmetric])
    have "nat (256 + (i AND 255)) = 2 ^ 8 + nat (i AND 255)" using lo by (simp add: nat_add_distrib)
    moreover have "nat (i AND 255) < 2 ^ 8" using lo by (simp add: nat_less_iff)
    ultimately have T: "dbcF_bitreverse_table ! nat (256 + (i AND 255)) = int (bitrev 8 (nat (i AND 255)))"
      using table_nth[of 8 "nat (i AND 255)"] by (simp del: bitrev.simps)
    have hi: "0 \<le> drop_bit 8 i" "drop_bit 8 i < 2 ^ nat (bits - 8)"
      using 1(3,4) False by (simp_all add: drop_bit_eq_div bits b_def[symmetric] power_add)
    have IH: "bit (dbcF_bitreverse (drop_bit 8 i) (bits - 8)) m \<longleftrightarrow> m < b \<and> bit i (b - 1 - m + 8)" for m
      using 1(1)[OF False _ hi, of m] False 1(5) by (simp add: b_def bit_drop_bit_eq add.commute)
    have T256: "0 \<le> int (bitrev 8 (nat (i AND 255)))" "int (bitrev 8 (nat (i AND 255))) < 2 ^ 8"
      using bitrev_less[of 8 "nat (i AND 255)"] by (simp_all del: bitrev.simps)
    have shl: "index_shl (int (bitrev 8 (nat (i AND 255)))) (bits - 8)
                 = push_bit b (int (bitrev 8 (nat (i AND 255))))"
      unfolding b_def using False 1(5) by (intro index_shl_byte[OF T256]) simp_all
    have T8: "bit (int (bitrev 8 (nat (i AND 255)))) m \<longleftrightarrow> m < 8 \<and> bit i (7 - m)" for m
      using lo by (auto simp: bit_int_bitrev bit_nat_iff bit_and_iff m255 bit_mask_iff simp del: bitrev.simps)
    have "dbcF_bitreverse i bits = push_bit b (int (bitrev 8 (nat (i AND 255)))) XOR dbcF_bitreverse (drop_bit 8 i) (bits - 8)"
      using False by (simp add: dbcF_bitreverse.simps[of i bits] T shl del: bitrev.simps)
    then have L: "bit (dbcF_bitreverse i bits) n \<longleftrightarrow>
        (b \<le> n \<and> n - b < 8 \<and> bit i (7 - (n - b))) \<noteq> (n < b \<and> bit i (b - 1 - n + 8))"
      by (simp only: bit_xor_iff bit_push_bit_iff IH T8) simp
    show ?thesis
    proof (cases "n < b")
      case True
      then have "b - 1 - n + 8 = b + 8 - 1 - n" by simp
      with True show ?thesis unfolding L bits by simp
    next
      case False
      then have "7 - (n - b) = b + 8 - 1 - n" if "n < b + 8" using that by simp
      with False show ?thesis unfolding L bits by auto
    qed
  qed
qed

lemma dbcF_bitreverse_range:
  assumes "0 \<le> bits" "0 \<le> i" "i < 2 ^ nat bits" "bits \<le> 63"
  shows "0 \<le> dbcF_bitreverse i bits \<and> dbcF_bitreverse i bits < 2 ^ nat bits"
proof -
  have "take_bit (nat bits) (dbcF_bitreverse i bits) = dbcF_bitreverse i bits"
    by (rule bit_eqI) (auto simp: bit_take_bit_iff bit_dbcF_bitreverse[OF assms])
  then show ?thesis
    by (metis take_bit_int_less_exp take_bit_nonnegative)
qed

lemma dbcF_bitreverse_involution:
  assumes "0 \<le> bits" "0 \<le> i" "i < 2 ^ nat bits" "bits \<le> 63"
  shows "dbcF_bitreverse (dbcF_bitreverse i bits) bits = i"
proof (rule bit_eqI)
  fix n
  have r: "0 \<le> dbcF_bitreverse i bits" "dbcF_bitreverse i bits < 2 ^ nat bits"
    using dbcF_bitreverse_range[OF assms] by simp_all
  have "nat bits - 1 - (nat bits - 1 - n) = n" if "n < nat bits" using that by simp
  then show "bit (dbcF_bitreverse (dbcF_bitreverse i bits) bits) n = bit i n"
    using bit_less_exp_int[OF assms(2,3), of n]
    by (auto simp: bit_dbcF_bitreverse[OF assms(1) r assms(4)] bit_dbcF_bitreverse[OF assms])
qed


lemma bit_small_cases:
  assumes "0 \<le> (x::int)" "x < 2 ^ 8"
    and "\<And>m. m < 8 \<Longrightarrow> bit x m = P m" "\<And>m. 8 \<le> m \<Longrightarrow> \<not> P m"
  shows "bit x n = P n"
  using assms bit_less_exp_int[OF assms(1,2), of n] by (cases "n < 8") auto

lemma less_8_cases:
  assumes "m < (8::nat)"
  obtains "m = 0" | "m = 1" | "m = 2" | "m = 3" | "m = 4" | "m = 5" | "m = 6" | "m = 7"
  using assms by linarith

lemma bit_CC: "bit (0xCC::int) n \<longleftrightarrow> n = 2 \<or> n = 3 \<or> n = 6 \<or> n = 7"
proof (rule bit_small_cases[where P = "\<lambda>n. n = 2 \<or> n = 3 \<or> n = 6 \<or> n = 7"])
  fix m :: nat assume "m < 8"
  then show "bit (0xCC::int) m = (m = 2 \<or> m = 3 \<or> m = 6 \<or> m = 7)"
    by (cases m rule: less_8_cases) (simp_all add: bit_0)
qed simp_all

lemma bit_33: "bit (0x33::int) n \<longleftrightarrow> n = 0 \<or> n = 1 \<or> n = 4 \<or> n = 5"
proof (rule bit_small_cases[where P = "\<lambda>n. n = 0 \<or> n = 1 \<or> n = 4 \<or> n = 5"])
  fix m :: nat assume "m < 8"
  then show "bit (0x33::int) m = (m = 0 \<or> m = 1 \<or> m = 4 \<or> m = 5)"
    by (cases m rule: less_8_cases) (simp_all add: bit_0)
qed simp_all

lemma bit_AA: "bit (0xAA::int) n \<longleftrightarrow> n = 1 \<or> n = 3 \<or> n = 5 \<or> n = 7"
proof (rule bit_small_cases[where P = "\<lambda>n. n = 1 \<or> n = 3 \<or> n = 5 \<or> n = 7"])
  fix m :: nat assume "m < 8"
  then show "bit (0xAA::int) m = (m = 1 \<or> m = 3 \<or> m = 5 \<or> m = 7)"
    by (cases m rule: less_8_cases) (simp_all add: bit_0)
qed simp_all

lemma bit_55: "bit (0x55::int) n \<longleftrightarrow> n = 0 \<or> n = 2 \<or> n = 4 \<or> n = 6"
proof (rule bit_small_cases[where P = "\<lambda>n. n = 0 \<or> n = 2 \<or> n = 4 \<or> n = 6"])
  fix m :: nat assume "m < 8"
  then show "bit (0x55::int) m = (m = 0 \<or> m = 2 \<or> m = 4 \<or> m = 6)"
    by (cases m rule: less_8_cases) (simp_all add: bit_0)
qed simp_all

lemma bit_255: "bit (255::int) n \<longleftrightarrow> n < 8"
  using bit_mask_iff[where ?'a = int, of 8 n] by (simp add: mask_eq_exp_minus_1)

lemma bit_notable_byte:
  assumes "0 \<le> bits"
  shows "bit (dbcF_bitreverse_notable_byte i bits) n \<longleftrightarrow>
           n < min (nat bits) 8 \<and> bit i (min (nat bits) 8 - 1 - n)"
proof -
  define b where "b = min (nat bits) 8"
  have b: "nat (8 - (if bits < 8 then bits else 8)) = 8 - b" "b \<le> 8"
    using assms by (auto simp: b_def)
  define j0 where "j0 = i AND 255"
  define j1 where "j1 = drop_bit 4 j0 XOR push_bit 4 j0"
  define j2 where "j2 = drop_bit 2 (j1 AND 0xCC) XOR push_bit 2 (j1 AND 0x33)"
  define j3 where "j3 = drop_bit 1 (j2 AND 0xAA) XOR push_bit 1 (j2 AND 0x55)"
  have eq: "dbcF_bitreverse_notable_byte i bits = drop_bit (8 - b) j3"
    by (simp only: dbcF_bitreverse_notable_byte_def Let_def j3_def j2_def j1_def j0_def b)
  have b0: "bit j0 m \<longleftrightarrow> m < 8 \<and> bit i m" for m
    by (auto simp: j0_def bit_and_iff bit_255)
  have b1: "bit j1 m \<longleftrightarrow> (bit j0 (4 + m)) \<noteq> (4 \<le> m \<and> bit j0 (m - 4))" for m
    unfolding j1_def bit_xor_iff bit_drop_bit_eq bit_push_bit_iff by simp
  have b2: "bit j2 m \<longleftrightarrow> (bit j1 (2 + m) \<and> bit (0xCC::int) (2 + m))
              \<noteq> (2 \<le> m \<and> bit j1 (m - 2) \<and> bit (0x33::int) (m - 2))" for m
    unfolding j2_def bit_xor_iff bit_drop_bit_eq bit_push_bit_iff bit_and_iff by simp
  have b3: "bit j3 m \<longleftrightarrow> (bit j2 (1 + m) \<and> bit (0xAA::int) (1 + m))
              \<noteq> (1 \<le> m \<and> bit j2 (m - 1) \<and> bit (0x55::int) (m - 1))" for m
    unfolding j3_def bit_xor_iff bit_drop_bit_eq bit_push_bit_iff bit_and_iff by simp
  have j3: "bit j3 m \<longleftrightarrow> m < 8 \<and> bit i (7 - m)" for m
  proof (cases "m < 8")
    case True
    then show ?thesis
    proof (cases m rule: less_8_cases)
      case 1 then show ?thesis unfolding b3 b2 b1 b0 bit_CC bit_33 bit_AA bit_55 by simp
    next
      case 2 then show ?thesis unfolding b3 b2 b1 b0 bit_CC bit_33 bit_AA bit_55 by simp
    next
      case 3 then show ?thesis unfolding b3 b2 b1 b0 bit_CC bit_33 bit_AA bit_55 by simp
    next
      case 4 then show ?thesis unfolding b3 b2 b1 b0 bit_CC bit_33 bit_AA bit_55 by simp
    next
      case 5 then show ?thesis unfolding b3 b2 b1 b0 bit_CC bit_33 bit_AA bit_55 by simp
    next
      case 6 then show ?thesis unfolding b3 b2 b1 b0 bit_CC bit_33 bit_AA bit_55 by simp
    next
      case 7 then show ?thesis unfolding b3 b2 b1 b0 bit_CC bit_33 bit_AA bit_55 by simp
    next
      case 8 then show ?thesis unfolding b3 b2 b1 b0 bit_CC bit_33 bit_AA bit_55 by simp
    qed
  next
    case False
    then have "\<not> bit (0xAA::int) (1 + m)" "\<not> bit (0x55::int) (m - 1)"
      unfolding bit_AA bit_55 by auto
    with False show ?thesis unfolding b3 by simp
  qed
  have "7 - (8 - b + n) = b - 1 - n" if "n < b" using that b by simp
  then show ?thesis
    unfolding eq b_def[symmetric] using b by (auto simp: bit_drop_bit_eq j3)
qed


lemma bit_dbcF_bitreverse_notable:
  "0 \<le> bits \<Longrightarrow> bits \<le> 63 \<Longrightarrow>
     bit (dbcF_bitreverse_notable i bits) n \<longleftrightarrow> n < nat bits \<and> bit i (nat bits - 1 - n)"
proof (induction i bits arbitrary: n rule: dbcF_bitreverse_notable.induct)
  case (1 i bits)
  show ?case
  proof (cases "bits > 8")
    case False
    then have "min (nat bits) 8 = nat bits" by simp
    with False show ?thesis
      using bit_notable_byte[OF 1(2), of i n]
      by (simp add: dbcF_bitreverse_notable.simps[of i bits] Let_def)
  next
    case True
    define b where "b = nat (bits - 8)"
    have bits: "nat bits = b + 8" using True by (simp add: b_def)
    have "min (nat bits) 8 = 8" using True by simp
    then have T8: "bit (dbcF_bitreverse_notable_byte i bits) m \<longleftrightarrow> m < 8 \<and> bit i (7 - m)" for m
      using bit_notable_byte[OF 1(2), of i m] by simp
    have IH: "bit (dbcF_bitreverse_notable (drop_bit 8 i) (bits - 8)) m
                \<longleftrightarrow> m < b \<and> bit i (b - 1 - m + 8)" for m
      using 1(1)[OF refl True, of m] True 1(3) by (simp add: b_def bit_drop_bit_eq add.commute)
    have "take_bit 8 (dbcF_bitreverse_notable_byte i bits) = dbcF_bitreverse_notable_byte i bits"
      by (rule bit_eqI) (auto simp: bit_take_bit_iff T8)
    then have B256: "0 \<le> dbcF_bitreverse_notable_byte i bits"
      "dbcF_bitreverse_notable_byte i bits < 2 ^ 8"
      by (metis take_bit_nonnegative, metis take_bit_int_less_exp)
    have shl: "index_shl (dbcF_bitreverse_notable_byte i bits) (bits - 8)
                 = push_bit b (dbcF_bitreverse_notable_byte i bits)"
      unfolding b_def using True 1(3) by (intro index_shl_byte[OF B256]) simp_all
    have "dbcF_bitreverse_notable i bits =
            push_bit b (dbcF_bitreverse_notable_byte i bits)
              XOR dbcF_bitreverse_notable (drop_bit 8 i) (bits - 8)"
      using True by (simp add: dbcF_bitreverse_notable.simps[of i bits] Let_def shl)
    then have L: "bit (dbcF_bitreverse_notable i bits) n \<longleftrightarrow>
        (b \<le> n \<and> n - b < 8 \<and> bit i (7 - (n - b))) \<noteq> (n < b \<and> bit i (b - 1 - n + 8))"
      by (simp only: bit_xor_iff bit_push_bit_iff IH T8) simp
    show ?thesis
    proof (cases "n < b")
      case True
      then have "b - 1 - n + 8 = b + 8 - 1 - n" by simp
      with True show ?thesis unfolding L bits by simp
    next
      case False
      then have "7 - (n - b) = b + 8 - 1 - n" if "n < b + 8" using that by simp
      with False show ?thesis unfolding L bits by auto
    qed
  qed
qed

lemma dbcF_bitreverse_notable_eq:
  assumes "0 \<le> bits" "0 \<le> i" "i < 2 ^ nat bits" "bits \<le> 63"
  shows "dbcF_bitreverse_notable i bits = dbcF_bitreverse i bits"
  by (rule bit_eqI)
    (simp add: bit_dbcF_bitreverse[OF assms] bit_dbcF_bitreverse_notable[OF assms(1) assms(4)])


lemma bitrev_zero: "bitrev k 0 = 0"
  by (induction k) simp_all

lemma table_256: "dbcF_bitreverse_table ! 256 = 0" "dbcF_bitreverse_table ! 257 = 128"
  using table_nth[of 8 0] table_nth[of 8 1] by (simp_all add: eval_nat_numeral)

lemma bitreverse_zero: "0 \<le> bits \<Longrightarrow> dbcF_bitreverse 0 bits = 0"
proof (induction "0::int" bits rule: dbcF_bitreverse.induct)
  case (1 bits)
  show ?case
  proof (cases "bits \<le> 8")
    case True
    have "nat (DBCF_POW2 bits) = 2 ^ nat bits + 0"
      using 1(2) by (simp add: DBCF_POW2_def push_bit_eq_mult nat_power_eq)
    moreover have "nat bits \<le> 8" using True by simp
    ultimately show ?thesis
      using True table_nth[of "nat bits" 0]
      by (simp add: dbcF_bitreverse.simps[of 0 bits] bitrev_zero nat_power_eq del: bitrev.simps)
  next
    case False
    then show ?thesis
      using 1(1) by (simp add: dbcF_bitreverse.simps[of 0 bits] table_256 index_shl_def)
  qed
qed

text \<open>
  Claim C10, as stated for every bit count, fails: the index type has 64 bits.  For 64
  bits the index 1 is reversed to the byte 128 shifted by 56, which is \<open>2^63\<close> and does
  not fit: the result is negative, outside \<open>[0, 2^64)\<close>.
\<close>

theorem bitreverse_overflows_at_64_bits:
  "dbcF_bitreverse 1 64 = - (2 ^ 63) \<and> \<not> (0 \<le> dbcF_bitreverse 1 64)"
proof -
  have "index_shl 128 56 = - (2 ^ 63)" by (simp add: index_shl_def signed_take_bit_eq_take_bit_minus)
  then show ?thesis
    by (simp add: dbcF_bitreverse.simps[of 1 64] table_256 bitreverse_zero drop_bit_eq_div)
qed

text \<open>
  Claim C10, amended.  The bit-reverse helper is an involution on the indices below
  \<open>2 ^ bits\<close> and its result lies in \<open>[0, 2 ^ bits)\<close>, for every bit count
  \<open>0 \<le> bits \<le> 63\<close>, the bit counts at which the shift stays within the 64-bit index
  type; this holds for the variant that reads the table and for the variant compiled with
  \<^verbatim>\<open>DBC_FFT_NO_BITREVERSE_TABLE\<close>.
\<close>

theorem bitreverse_involution_and_range:
  assumes "0 \<le> bits" "0 \<le> i" "i < 2 ^ nat bits" "bits \<le> 63"
  shows "dbcF_bitreverse (dbcF_bitreverse i bits) bits = i
       \<and> 0 \<le> dbcF_bitreverse i bits \<and> dbcF_bitreverse i bits < 2 ^ nat bits
       \<and> dbcF_bitreverse_notable (dbcF_bitreverse_notable i bits) bits = i
       \<and> 0 \<le> dbcF_bitreverse_notable i bits \<and> dbcF_bitreverse_notable i bits < 2 ^ nat bits"
proof -
  note r = dbcF_bitreverse_range[OF assms]
  have "dbcF_bitreverse_notable (dbcF_bitreverse i bits) bits
          = dbcF_bitreverse (dbcF_bitreverse i bits) bits"
    using r by (intro dbcF_bitreverse_notable_eq assms) simp_all
  then show ?thesis
    using dbcF_bitreverse_involution[OF assms] r dbcF_bitreverse_notable_eq[OF assms] by simp
qed

theorem bitreverse_involution_and_range_witness:
  "dbcF_bitreverse (dbcF_bitreverse 5 10) 10 = 5
       \<and> 0 \<le> dbcF_bitreverse 5 10 \<and> dbcF_bitreverse 5 10 < 2 ^ nat 10
       \<and> dbcF_bitreverse_notable (dbcF_bitreverse_notable 5 10) 10 = 5
       \<and> 0 \<le> dbcF_bitreverse_notable 5 10 \<and> dbcF_bitreverse_notable 5 10 < 2 ^ nat 10"
  using bitreverse_involution_and_range[of 10 5] by simp
section \<open>Loops and powers of two\<close>



lemma DBCF_POW2_eq: "0 \<le> n \<Longrightarrow> DBCF_POW2 n = 2 ^ nat n"
  by (simp add: DBCF_POW2_def push_bit_eq_mult)


section \<open>Evaluating the model on concrete inputs\<close>

text \<open>
  Unrolling a loop with a numeral bound.  The state of the shorter loop is bound by a
  \<open>let\<close>, so that it is evaluated once.
\<close>

lemma loop_upto_numeral:
  "loop_upto (numeral k) body s =
     (let s' = loop_upto (pred_numeral k) body s in body (int (pred_numeral k)) s')"
  by (simp add: numeral_eq_Suc)

lemma table_small: "dbcF_bitreverse_table ! 2 = 0" "dbcF_bitreverse_table ! 3 = 1"
  by (simp_all add: dbcF_bitreverse_table_def DBCF_R1_def nth_append)

lemma pot_log2_1: "dbcF_fft_pot_log2 1 (- 1) = Some 0"
  by (simp add: dbcF_fft_pot_log2.simps)

lemma pot_log2_2: "dbcF_fft_pot_log2 2 (- 1) = Some 1"
  by (simp add: dbcF_fft_pot_log2.simps)

lemmas eval_simps =
  dbcF_bitreversal_permutation.simps dbcF_butterfly.simps dbcF_butterfly_multipass.simps
  dbcF_compute_twiddles_def dbcF_butterfly_pass_def for_loop_def DBCF_POW2_def
  DBCF_TWIDDLES_BUF_LOG2_def DBCF_TMP_BUF_LOG2_def DBCF_TWIDDLES_BUF_SIZE_def Let_def
  loop_upto_numeral table_small

section \<open>The entry surface\<close>

lemma pot_log2_terminates:
  "0 \<le> n \<Longrightarrow> \<exists>k. dbcF_fft_pot_log2 n l = Some k"
proof (induction "nat n" arbitrary: n l rule: less_induct)
  case less
  show ?case
  proof (cases "n = 0")
    case True
    then show ?thesis by (simp add: dbcF_fft_pot_log2.simps)
  next
    case False
    with less.prems have "nat (drop_bit 1 n) < nat n" "0 \<le> drop_bit 1 n"
      by (simp_all add: drop_bit_eq_div)
    from less.hyps[OF this, of "l + 1"] False show ?thesis
      by (subst dbcF_fft_pot_log2.simps) simp
  qed
qed

lemma pot_code:
  assumes "0 \<le> n" "dst_real \<noteq> NULL" "dst_imag \<noteq> NULL"
  shows "outcome_code (dbcF_fft_pot cfg n sr si srs sis dst_real dst_imag drs dis is_inverse scale m)
           = Some 0"
proof -
  obtain k where "dbcF_fft_pot_log2 n (- 1) = Some k"
    using pot_log2_terminates[OF assms(1)] by blast
  then show ?thesis using assms(2,3)
    by (simp add: dbcF_fft_pot_def outcome_code_def Let_def split: prod.split)
qed

lemma pot_not_invalid:
  "dbcF_fft_pot cfg n sr si srs sis dst_real dst_imag drs dis is_inverse scale m \<noteq> Returns (- 1) m'"
  by (simp add: dbcF_fft_pot_def Let_def split: prod.split option.split)

lemma and_then_not_invalid:
  assumes "\<And>m1. f m1 \<noteq> Returns (- 1) m'"
  shows "and_then r f \<noteq> Returns (- 1) m'"
  using assms by (cases r) (simp_all add: and_then_def)

lemma npot_not_invalid:
  "dbcF_fft_npot cfg n sr si srs sis dst_real dst_imag drs dis is_inverse scale m \<noteq> Returns (- 1) m'"
  unfolding dbcF_fft_npot_def Let_def
  by (auto split: prod.split if_splits simp: DBCF_ERROR_OUT_OF_MEMORY_def
      intro!: and_then_not_invalid)

lemma outcome_code_Some: "outcome_code r = Some c \<longleftrightarrow> (\<exists>m'. r = Returns c m')"
  by (cases r) (simp_all add: outcome_code_def)

lemma pot_code_not_invalid:
  "outcome_code (dbcF_fft_pot cfg n sr si srs sis dst_real dst_imag drs dis is_inverse scale m)
     \<noteq> Some (- 1)"
  using pot_not_invalid by (simp add: outcome_code_Some)

lemma npot_code_not_invalid:
  "outcome_code (dbcF_fft_npot cfg n sr si srs sis dst_real dst_imag drs dis is_inverse scale m)
     \<noteq> Some (- 1)"
  using npot_not_invalid by (simp add: outcome_code_Some)

text \<open>
  Claim C7.  With \<open>num_elements < 1\<close> each of the six entry points returns 0 and leaves the
  memory as it was, whatever the other arguments are.
\<close>

theorem nonpositive_size_is_noop:
  assumes "num_elements < 1"
  shows "dbc_fft_c cfg num_elements src_real src_imag dst_real dst_imag scale m = Returns 0 m
    \<and> dbc_ifft_c cfg num_elements src_real src_imag dst_real dst_imag scale m = Returns 0 m
    \<and> dbc_fft_i cfg num_elements src dst scale m = Returns 0 m
    \<and> dbc_ifft_i cfg num_elements src dst scale m = Returns 0 m
    \<and> dbc_fft_s cfg num_elements src_real src_imag src_real_stride src_imag_stride
         dst_real dst_imag dst_real_stride dst_imag_stride scale m = Returns 0 m
    \<and> dbc_ifft_s cfg num_elements src_real src_imag src_real_stride src_imag_stride
         dst_real dst_imag dst_real_stride dst_imag_stride scale m = Returns 0 m"
  using assms
  by (simp add: dbc_fft_c_def dbc_ifft_c_def dbc_fft_i_def dbc_ifft_i_def dbc_fft_s_def
      dbc_ifft_s_def dbcF_fft_def)

theorem nonpositive_size_is_noop_witness:
  "dbc_fft_c example_config 0 100 200 300 400 2 example_mem = Returns 0 example_mem
    \<and> dbc_ifft_c example_config 0 100 200 300 400 2 example_mem = Returns 0 example_mem
    \<and> dbc_fft_i example_config 0 100 300 2 example_mem = Returns 0 example_mem
    \<and> dbc_ifft_i example_config 0 100 300 2 example_mem = Returns 0 example_mem
    \<and> dbc_fft_s example_config 0 100 200 1 1 300 400 0 0 2 example_mem = Returns 0 example_mem
    \<and> dbc_ifft_s example_config 0 100 200 1 1 300 400 0 0 2 example_mem = Returns 0 example_mem"
  using nonpositive_size_is_noop[where num_elements = 0 and cfg = example_config
      and src_real = 100 and src_imag = 200 and dst_real = 300 and dst_imag = 400
      and src = 100 and dst = 300 and scale = 2 and m = example_mem
      and src_real_stride = 1 and src_imag_stride = 1
      and dst_real_stride = 0 and dst_imag_stride = 0]
  by simp

text \<open>
  Claim C4, as stated, fails: the entry point compares pointers only, so a partial overlap
  is not rejected.  Here the source real parts occupy the cells 100 and 101 and the
  destination real parts the cells 101 and 102; the call returns 0.
\<close>

theorem partial_overlap_not_rejected:
  "outcome_code (dbcF_fft example_config 2 100 200 1 1 101 300 1 1 False 1 example_mem) = Some 0"
  by (simp add: dbcF_fft_def pot_code)

text \<open>
  Claim C4, amended.  For \<open>num_elements \<ge> 1\<close> the return code of the entry point is
  \<^verbatim>\<open>DBCF_ERROR_INVALID_ARGUMENT\<close> exactly when
  \<open>src_imag = dst_real\<close>, or \<open>src_real = dst_imag\<close>, or a source pointer equals the
  destination pointer of the same channel while the two strides differ; the call then
  returns with the memory unchanged.  So every alias
  that shows as an equality of pointers is rejected without a store, the exact
  per-channel alias (equal pointers, equal strides) is accepted, and an overlap of buffers
  whose pointers differ is not detected.
\<close>

theorem alias_rejected_iff_pointers_equal:
  assumes "1 \<le> num_elements"
  shows "(outcome_code (dbcF_fft cfg num_elements src_real src_imag src_real_stride src_imag_stride
            dst_real dst_imag dst_real_stride dst_imag_stride is_inverse scale m)
          = Some DBCF_ERROR_INVALID_ARGUMENT
        \<longleftrightarrow> (src_real = dst_real \<and> src_real_stride \<noteq> dst_real_stride)
            \<or> (src_imag = dst_imag \<and> src_imag_stride \<noteq> dst_imag_stride)
            \<or> src_imag = dst_real \<or> src_real = dst_imag)
     \<and> ((src_real = dst_real \<and> src_real_stride \<noteq> dst_real_stride)
            \<or> (src_imag = dst_imag \<and> src_imag_stride \<noteq> dst_imag_stride)
            \<or> src_imag = dst_real \<or> src_real = dst_imag
        \<longrightarrow> dbcF_fft cfg num_elements src_real src_imag src_real_stride src_imag_stride
              dst_real dst_imag dst_real_stride dst_imag_stride is_inverse scale m
            = Returns DBCF_ERROR_INVALID_ARGUMENT m)"
  using assms pot_code_not_invalid npot_code_not_invalid
  by (auto simp: dbcF_fft_def DBCF_ERROR_INVALID_ARGUMENT_def outcome_code_def)

theorem alias_rejected_iff_pointers_equal_witness:
  "outcome_code (dbcF_fft example_config 2 300 200 1 1 300 400 2 1 False 1 example_mem)
     = Some DBCF_ERROR_INVALID_ARGUMENT
   \<and> dbcF_fft example_config 2 300 200 1 1 300 400 2 1 False 1 example_mem
     = Returns DBCF_ERROR_INVALID_ARGUMENT example_mem
   \<and> outcome_code (dbcF_fft example_config 2 300 400 1 1 300 400 1 1 False 1 example_mem)
     \<noteq> Some DBCF_ERROR_INVALID_ARGUMENT"
  using alias_rejected_iff_pointers_equal[of 2 example_config 300 200 1 1 300 400 2 1 False 1
      example_mem]
    alias_rejected_iff_pointers_equal[of 2 example_config 300 400 1 1 300 400 1 1 False 1
      example_mem]
  by (simp add: outcome_code_def)

text \<open>
  Claim C6.  When the allocator returns null for the scratch buffer of the Bluestein
  driver, the driver returns \<^verbatim>\<open>DBCF_ERROR_OUT_OF_MEMORY\<close> with the memory unchanged; so does
  the entry point for every size \<open>n \<ge> 1\<close> that is not a power of two, on every call that
  reaches the driver (one that the alias checks do not reject first).
\<close>

theorem allocation_failure_leaves_memory:
  assumes "cfg_malloc cfg (4 * DBCF_POW2 (fst (dbcF_fft_npot_size n 0 1)) + 4 * n) = NULL"
  shows "dbcF_fft_npot cfg n src_real src_imag src_real_stride src_imag_stride
           dst_real dst_imag dst_real_stride dst_imag_stride is_inverse scale m
         = Returns DBCF_ERROR_OUT_OF_MEMORY m
     \<and> (1 \<le> n \<and> n AND (n - 1) \<noteq> 0
          \<and> \<not> (src_real = dst_real \<and> src_real_stride \<noteq> dst_real_stride)
          \<and> \<not> (src_imag = dst_imag \<and> src_imag_stride \<noteq> dst_imag_stride)
          \<and> src_imag \<noteq> dst_real \<and> src_real \<noteq> dst_imag
        \<longrightarrow> dbcF_fft cfg n src_real src_imag src_real_stride src_imag_stride
              dst_real dst_imag dst_real_stride dst_imag_stride is_inverse scale m
            = Returns DBCF_ERROR_OUT_OF_MEMORY m)"
  using assms by (auto simp: dbcF_fft_def dbcF_fft_npot_def Let_def split: prod.split)

theorem allocation_failure_leaves_memory_witness:
  "dbcF_fft_npot example_config 3 100 200 1 1 300 400 1 1 False 1 example_mem
     = Returns DBCF_ERROR_OUT_OF_MEMORY example_mem
   \<and> dbcF_fft example_config 3 100 200 1 1 300 400 1 1 False 1 example_mem
     = Returns DBCF_ERROR_OUT_OF_MEMORY example_mem"
  using allocation_failure_leaves_memory[of example_config 3 100 200 1 1 300 400 1 1 False 1
      example_mem]
  by (simp add: example_config_def)


section \<open>The final scaling of the power-of-two driver\<close>

lemma example_permutation_real:
  "dbcF_bitreversal_permutation 1 100 1 300 2 2000 (example_mem(1000 := 0, 1001 := 0))
     = example_mem(1000 := 0, 1001 := 0, 300 := 1, 302 := 3)"
  by (simp add: eval_simps example_mem_def)

lemma example_permutation_imag:
  "dbcF_bitreversal_permutation 1 200 1 400 2 2000
       (example_mem(1000 := 0, 1001 := 0, 300 := 1, 302 := 3))
     = example_mem(1000 := 0, 1001 := 0, 300 := 1, 302 := 3, 400 := 0, 402 := 0)"
  by (simp add: eval_simps example_mem_def)

lemma example_butterfly:
  "dbcF_butterfly example_config 1 300 400 2 2 False 2000
       (example_mem(1000 := 0, 1001 := 0, 300 := 1, 302 := 3, 400 := 0, 402 := 0))
     = example_mem(1000 := 0, 1001 := 0, 2512 := 0, 2000 := 1, 300 := 4, 400 := 0,
         302 := - 2, 402 := 0)"
  by (simp add: eval_simps cong: let_weak_cong)

text \<open>
  Claim C3 does not hold of the code.  The transform of \<open>(1, 3)\<close> with scale 2, written
  with destination strides 2, should leave \<open>8\<close> and \<open>- 4\<close> in the cells 300 and 302.  The
  scaling loop of \<^verbatim>\<open>dbcF_fft_pot\<close> indexes \<open>dst_real[i]\<close>, not \<open>dst_real[i*dst_real_stride]\<close>:
  it leaves the second output \<open>- 2\<close> unscaled and doubles the cell 301, which is not an
  output.
\<close>

theorem pot_scaling_ignores_destination_strides:
  "outcome_cells (dbc_fft_s example_config 2 100 200 1 1 300 400 2 2 2 example_mem)
     [300, 301, 302] = [8, 14, - 2]"
  apply (simp add: dbc_fft_s_def dbcF_fft_def dbcF_fft_pot_def pot_log2_2 Let_def
      cong: let_weak_cong)
  apply (simp add: example_config_def example_permutation_real example_permutation_imag
      cong: let_weak_cong)
  apply (simp add: example_config_def[symmetric] example_butterfly cong: let_weak_cong)
  apply (simp add: for_loop_def loop_upto_numeral outcome_cells_def example_mem_def
      cong: let_weak_cong)
  done

section \<open>Null sources\<close>

lemma interleaved_null_permutation_real:
  "dbcF_bitreversal_permutation 1 1000 0 300 0 2000 (example_mem_interleaved(1000 := 0, 1001 := 0))
     = example_mem_interleaved(1000 := 0, 1001 := 0, 300 := 0)"
  by (simp add: eval_simps)

lemma interleaved_null_permutation_imag:
  "dbcF_bitreversal_permutation 1 1001 0 301 0 2000
       (example_mem_interleaved(1000 := 0, 1001 := 0, 300 := 0))
     = example_mem_interleaved(1000 := 0, 1001 := 0, 300 := 0, 301 := 0)"
  by (simp add: eval_simps)

lemma interleaved_null_butterfly:
  "dbcF_butterfly example_config 1 300 301 0 0 False 2000
       (example_mem_interleaved(1000 := 0, 1001 := 0, 300 := 0, 301 := 0))
     = example_mem_interleaved(1000 := 0, 1001 := 0, 2512 := 0, 2000 := 1, 300 := 0, 301 := 0)"
  by (simp add: eval_simps cong: let_weak_cong)

lemma interleaved_null_cells:
  "outcome_cells (dbc_fft_i example_config 2 NULL 300 1 example_mem_interleaved)
     [300, 301, 302, 303] = [0, 0, 7, 8]"
  apply (simp add: dbc_fft_i_def dbcF_fft_def dbcF_fft_pot_def pot_log2_2 Let_def
      cong: let_weak_cong)
  apply (simp add: example_config_def interleaved_null_permutation_real
      interleaved_null_permutation_imag cong: let_weak_cong)
  apply (simp add: example_config_def[symmetric] interleaved_null_butterfly cong: let_weak_cong)
  apply (simp add: outcome_cells_def example_mem_interleaved_def)
  done

lemma npot_size_3: "dbcF_fft_npot_size 3 0 1 = (3, 8)"
  by (simp add: dbcF_fft_npot_size.simps DBCF_POW2_def)

lemma npot_null_real:
  "dbc_fft_s example_config_heap 3 NULL 200 1 1 300 400 1 1 1 example_mem = Null_dereference"
  by (simp add: dbc_fft_s_def dbcF_fft_def dbcF_fft_npot_def npot_size_3 example_config_heap_def
      DBCF_POW2_def Let_def)

text \<open>
  Claim C2 does not hold of the code, in the two cases it adds to the planar power-of-two
  one.  The interleaved entry point computes the destination strides from the source
  pointer, \<^verbatim>\<open>(src?2:0)\<close>, so with a null source they are zero: for two elements the call
  returns success with the second output, the cells 302 and 303, never written (they keep
  7 and 8), where the transform of the zero input is all zero.  And the Bluestein driver loads
  \<^verbatim>\<open>src_real[i*src_real_stride]\<close> with no test for null, which the power-of-two driver
  has: for three elements and a null real channel the call dereferences the null pointer.
\<close>

theorem null_source_not_zero_input:
  "outcome_cells (dbc_fft_i example_config 2 NULL 300 1 example_mem_interleaved)
     [300, 301, 302, 303] = [0, 0, 7, 8]
   \<and> dbc_fft_s example_config_heap 3 NULL 200 1 1 300 400 1 1 1 example_mem = Null_dereference"
  by (simp only: interleaved_null_cells npot_null_real)

section \<open>The twiddle generator\<close>

lemma doubling_re:
  fixes \<phi> \<theta> :: real
  assumes "\<sigma> = 1 \<or> \<sigma> = - 1"
  shows "((cos \<phi> - 1) * (cos \<theta> - 1) - (\<sigma> * sin \<phi>) * (\<sigma> * sin \<theta>)) + ((cos \<phi> - 1) + (cos \<theta> - 1))
       = cos (\<phi> + \<theta>) - 1"
  using assms by (auto simp: cos_add algebra_simps)

lemma doubling_im:
  fixes \<phi> \<theta> :: real
  shows "((\<sigma> * sin \<phi>) * (cos \<theta> - 1) + (cos \<phi> - 1) * (\<sigma> * sin \<theta>)) + ((\<sigma> * sin \<phi>) + (\<sigma> * sin \<theta>))
       = \<sigma> * sin (\<phi> + \<theta>)"
  by (simp add: sin_add algebra_simps)

lemma twiddle_step_apply:
  assumes "re + 2 * k \<le> im \<or> im + 2 * k \<le> re" "0 \<le> j" "j < k"
  shows "twiddle_step re im x y k j m a =
     (if a = im + (k + j) then (y * m (re + j) + x * m (im + j)) + (y + m (im + j))
      else if a = re + (k + j) then (x * m (re + j) - y * m (im + j)) + (x + m (re + j))
      else m a)"
  using assms by (auto simp: twiddle_step_def Let_def)

lemma twiddle_inner:
  fixes re im :: int and K :: nat
  assumes disj: "re + 2 * int K \<le> im \<or> im + 2 * int K \<le> re" and t: "t \<le> K"
  shows "(\<forall>j<t.
              loop_upto t (twiddle_step re im x y (int K)) m (re + (int K + int j))
                = (x * m (re + int j) - y * m (im + int j)) + (x + m (re + int j))
            \<and> loop_upto t (twiddle_step re im x y (int K)) m (im + (int K + int j))
                = (y * m (re + int j) + x * m (im + int j)) + (y + m (im + int j)))
        \<and> (\<forall>a. (a < re + int K \<or> re + int K + int t \<le> a) \<and> (a < im + int K \<or> im + int K + int t \<le> a)
               \<longrightarrow> loop_upto t (twiddle_step re im x y (int K)) m a = m a)"
  using t
proof (induction t)
  case 0
  then show ?case by simp
next
  case (Suc t)
  define s where "s = loop_upto t (twiddle_step re im x y (int K)) m"
  have IH: "\<And>j. j < t \<Longrightarrow> s (re + (int K + int j)) = (x * m (re + int j) - y * m (im + int j)) + (x + m (re + int j))"
    "\<And>j. j < t \<Longrightarrow> s (im + (int K + int j)) = (y * m (re + int j) + x * m (im + int j)) + (y + m (im + int j))"
    "\<And>a. (a < re + int K \<or> re + int K + int t \<le> a) \<and> (a < im + int K \<or> im + int K + int t \<le> a)
               \<Longrightarrow> s a = m a"
    using Suc by (auto simp: s_def)
  have tK: "t < K" using Suc.prems by simp
  have rd: "s (re + int t) = m (re + int t)" "s (im + int t) = m (im + int t)"
    using disj tK by (auto intro!: IH(3))
  have step: "loop_upto (Suc t) (twiddle_step re im x y (int K)) m a =
     (if a = im + (int K + int t) then (y * m (re + int t) + x * m (im + int t)) + (y + m (im + int t))
      else if a = re + (int K + int t) then (x * m (re + int t) - y * m (im + int t)) + (x + m (re + int t))
      else s a)" for a
    using disj tK by (simp add: s_def[symmetric] twiddle_step_apply rd)
  show ?case
  proof (intro conjI allI impI)
    fix j assume "j < Suc t"
    then consider "j = t" | "j < t" by linarith
    then show "loop_upto (Suc t) (twiddle_step re im x y (int K)) m (re + (int K + int j)) =
         x * m (re + int j) - y * m (im + int j) + (x + m (re + int j))"
      using disj tK by cases (auto simp: step IH(1) simp del: loop_upto.simps)
  next
    fix j assume "j < Suc t"
    then consider "j = t" | "j < t" by linarith
    then show "loop_upto (Suc t) (twiddle_step re im x y (int K)) m (im + (int K + int j)) =
         y * m (re + int j) + x * m (im + int j) + (y + m (im + int j))"
      using disj tK by cases (auto simp: step IH(2) simp del: loop_upto.simps)
  next
    fix a assume "(a < re + int K \<or> re + int K + int (Suc t) \<le> a) \<and> (a < im + int K \<or> im + int K + int (Suc t) \<le> a)"
    then show "loop_upto (Suc t) (twiddle_step re im x y (int K)) m a = m a"
      using disj tK by (auto simp: step simp del: loop_upto.simps intro!: IH(3))
  qed
qed


lemma twiddle_outer:
  fixes re im :: int and B :: nat
  assumes disj: "re + 2 ^ B \<le> im \<or> im + 2 ^ B \<le> re"
    and B: "int B \<le> log2n"
    and seeds: "\<And>i. i < B \<Longrightarrow> dbcF_cexpm1 cfg (log2n - int i) = exact_cexpm1 (log2n - int i)"
    and init: "m (re) = 0" "m (im) = 0"
    and t: "t \<le> B"
  defines "\<theta> \<equiv> 2 * pi / 2 ^ nat log2n"
  shows "(\<forall>k < 2 ^ t.
            loop_upto t (twiddle_outer_body cfg log2n re im is_inverse) m (re + int k) = cos (\<theta> * real k) - 1
          \<and> loop_upto t (twiddle_outer_body cfg log2n re im is_inverse) m (im + int k) = tw_sign is_inverse * sin (\<theta> * real k))
       \<and> (\<forall>a. (a < re \<or> re + 2 ^ t \<le> a) \<and> (a < im \<or> im + 2 ^ t \<le> a)
              \<longrightarrow> loop_upto t (twiddle_outer_body cfg log2n re im is_inverse) m a = m a)"
  using t
proof (induction t)
  case 0
  then show ?case using init by simp
next
  case (Suc t)
  define s where "s = loop_upto t (twiddle_outer_body cfg log2n re im is_inverse) m"
  define K :: nat where "K = 2 ^ t"
  have tB: "t < B" using Suc.prems by simp
  have KB: "2 * int K \<le> 2 ^ B"
  proof -
    have "(2::int) ^ Suc t \<le> 2 ^ B" using tB by (intro power_increasing) auto
    then show ?thesis by (simp add: K_def)
  qed
  have IH: "\<And>k. k < K \<Longrightarrow> s (re + int k) = cos (\<theta> * real k) - 1"
    "\<And>k. k < K \<Longrightarrow> s (im + int k) = tw_sign is_inverse * sin (\<theta> * real k)"
    "\<And>a. (a < re \<or> re + int K \<le> a) \<and> (a < im \<or> im + int K \<le> a) \<Longrightarrow> s a = m a"
    using Suc by (auto simp: s_def K_def)
  define \<phi> where "\<phi> = 2 * pi / 2 ^ nat (log2n - int t)"
  have \<phi>: "\<phi> = \<theta> * real K"
  proof -
    have "nat log2n = nat (log2n - int t) + t" using tB B by simp
    then have "(2::real) ^ nat log2n = 2 ^ nat (log2n - int t) * 2 ^ t" by (simp add: power_add)
    then show ?thesis by (simp add: \<phi>_def \<theta>_def K_def)
  qed
  define x where "x = cos \<phi> - 1"
  define y where "y = tw_sign is_inverse * sin \<phi>"
  have body: "twiddle_outer_body cfg log2n re im is_inverse (int t) s
              = loop_upto K (twiddle_step re im x y (int K)) s"
    using seeds[OF tB]
    by (simp add: twiddle_outer_body_def exact_cexpm1_def DBCF_POW2_eq K_def x_def y_def \<phi>_def
        tw_sign_def Let_def for_loop_def nat_power_eq)
  have disj': "re + 2 * int K \<le> im \<or> im + 2 * int K \<le> re" using disj KB by auto
  note inner = twiddle_inner[OF disj' order_refl, of x y s]
  have new_re: "loop_upto K (twiddle_step re im x y (int K)) s (re + (int K + int j))
                  = cos (\<theta> * real (K + j)) - 1" if "j < K" for j
  proof -
    have "loop_upto K (twiddle_step re im x y (int K)) s (re + (int K + int j))
          = (x * s (re + int j) - y * s (im + int j)) + (x + s (re + int j))"
      using inner that by blast
    also have "\<dots> = cos (\<phi> + \<theta> * real j) - 1"
      unfolding IH(1)[OF that] IH(2)[OF that] x_def y_def
      by (rule doubling_re) (auto simp: tw_sign_def)
    finally show ?thesis by (simp add: \<phi> algebra_simps)
  qed
  have new_im: "loop_upto K (twiddle_step re im x y (int K)) s (im + (int K + int j))
                  = tw_sign is_inverse * sin (\<theta> * real (K + j))" if "j < K" for j
  proof -
    have "loop_upto K (twiddle_step re im x y (int K)) s (im + (int K + int j))
          = (y * s (re + int j) + x * s (im + int j)) + (y + s (im + int j))"
      using inner that by blast
    also have "\<dots> = tw_sign is_inverse * sin (\<phi> + \<theta> * real j)"
      unfolding IH(1)[OF that] IH(2)[OF that] x_def y_def by (rule doubling_im)
    finally show ?thesis by (simp add: \<phi> algebra_simps)
  qed
  have old: "loop_upto K (twiddle_step re im x y (int K)) s a = s a"
    if "(a < re + int K \<or> re + int K + int K \<le> a) \<and> (a < im + int K \<or> im + int K + int K \<le> a)" for a
    using inner that by blast
  have step: "loop_upto (Suc t) (twiddle_outer_body cfg log2n re im is_inverse) m
              = loop_upto K (twiddle_step re im x y (int K)) s"
    by (simp add: s_def[symmetric] body)
  have K2: "(2::nat) ^ Suc t = K + K" "(2::int) ^ Suc t = int K + int K" by (simp_all add: K_def)
  show ?case
    unfolding step K2
  proof (intro conjI allI impI)
    fix k assume k: "k < K + K"
    show "loop_upto K (twiddle_step re im x y (int K)) s (re + int k) = cos (\<theta> * real k) - 1"
    proof (cases "k < K")
      case True
      then show ?thesis using old[of "re + int k"] disj' IH(1)[OF True] by auto
    next
      case False
      then have "k = K + (k - K)" "k - K < K" using k by auto
      then show ?thesis using new_re[of "k - K"] by (metis add.assoc of_nat_add)
    qed
    show "loop_upto K (twiddle_step re im x y (int K)) s (im + int k) = tw_sign is_inverse * sin (\<theta> * real k)"
    proof (cases "k < K")
      case True
      then show ?thesis using old[of "im + int k"] disj' IH(2)[OF True] by auto
    next
      case False
      then have "k = K + (k - K)" "k - K < K" using k by auto
      then show ?thesis using new_im[of "k - K"] by (metis add.assoc of_nat_add)
    qed
  next
    fix a assume "(a < re \<or> re + (int K + int K) \<le> a) \<and> (a < im \<or> im + (int K + int K) \<le> a)"
    then show "loop_upto K (twiddle_step re im x y (int K)) s a = m a"
      using old[of a] IH(3)[of a] by auto
  qed
qed


lemma add_one_loop:
  "loop_upto N (\<lambda>i m. m(re + i := 1 + m (re + i))) m a
     = (if re \<le> a \<and> a < re + int N then 1 + m a else m a)"
  by (induction N) auto

lemma compute_twiddles_loop_form:
  "dbcF_compute_twiddles cfg log2n (int B) re im is_inverse m0 =
     loop_upto (2 ^ B) (\<lambda>i m. m(re + i := 1 + m (re + i)))
       (loop_upto B (twiddle_outer_body cfg log2n re im is_inverse) (m0(re := 0, im := 0)))"
  by (simp add: dbcF_compute_twiddles_def twiddle_outer_body_def Let_def DBCF_POW2_eq
      for_loop_def nat_power_eq)

lemma compute_twiddles_correct:
  fixes re im :: int and B :: nat and m0 :: mem and is_inverse :: bool
  assumes disj: "re + 2 ^ B \<le> im \<or> im + 2 ^ B \<le> re"
    and B: "int B \<le> log2n"
    and seeds: "\<forall>i<B. dbcF_cexpm1 cfg (log2n - int i) = exact_cexpm1 (log2n - int i)"
  defines "M \<equiv> dbcF_compute_twiddles cfg log2n (int B) re im is_inverse m0"
  shows "k < 2 ^ B \<Longrightarrow> M (re + int k) = cos (2 * pi / 2 ^ nat log2n * real k)"
    and "k < 2 ^ B \<Longrightarrow> M (im + int k) = tw_sign is_inverse * sin (2 * pi / 2 ^ nat log2n * real k)"
    and "(a < re \<or> re + 2 ^ B \<le> a) \<and> (a < im \<or> im + 2 ^ B \<le> a) \<Longrightarrow> M a = m0 a"
proof -
  have ne: "re \<noteq> im" using disj by (smt (verit) zero_less_power)
  have pos: "(0::int) < 2 ^ B" by simp
  have seeds': "\<And>i. i < B \<Longrightarrow> dbcF_cexpm1 cfg (log2n - int i) = exact_cexpm1 (log2n - int i)"
    using seeds by blast
  note outer = twiddle_outer[OF disj B seeds' _ _ order_refl, of "m0(re := 0, im := 0)" is_inverse]
  have o1: "loop_upto B (twiddle_outer_body cfg log2n re im is_inverse) (m0(re := 0, im := 0)) (re + int k)
             = cos (2 * pi / 2 ^ nat log2n * real k) - 1" if "k < 2 ^ B" for k
    using outer that ne by simp
  have o2: "loop_upto B (twiddle_outer_body cfg log2n re im is_inverse) (m0(re := 0, im := 0)) (im + int k)
             = tw_sign is_inverse * sin (2 * pi / 2 ^ nat log2n * real k)" if "k < 2 ^ B" for k
    using outer that ne by simp
  have o3: "loop_upto B (twiddle_outer_body cfg log2n re im is_inverse) (m0(re := 0, im := 0)) a
             = (m0(re := 0, im := 0)) a" if "(a < re \<or> re + 2 ^ B \<le> a) \<and> (a < im \<or> im + 2 ^ B \<le> a)" for a
    using outer that ne by simp
  show "M (re + int k) = cos (2 * pi / 2 ^ nat log2n * real k)" if "k < 2 ^ B"
    using that o1[OF that] by (simp add: M_def compute_twiddles_loop_form add_one_loop)
  show "M (im + int k) = tw_sign is_inverse * sin (2 * pi / 2 ^ nat log2n * real k)" if "k < 2 ^ B"
  proof -
    have "int k < 2 ^ B" using that by (metis of_nat_less_iff of_nat_numeral of_nat_power)
    then have "\<not> (re \<le> im + int k \<and> im + int k < re + 2 ^ B)" using disj by linarith
    then show ?thesis using o2[OF that] by (simp add: M_def compute_twiddles_loop_form add_one_loop)
  qed
  show "M a = m0 a" if "(a < re \<or> re + 2 ^ B \<le> a) \<and> (a < im \<or> im + 2 ^ B \<le> a)"
    using that o3[OF that] pos by (auto simp: M_def compute_twiddles_loop_form add_one_loop)
qed

lemma Complex_cos_sin_sign:
  "Complex (cos a) (tw_sign is_inverse * sin a) = cis (tw_sign is_inverse * a)"
  by (simp add: tw_sign_def complex_eq_iff)

text \<open>The doubling rule, for whatever the seed routine returns.\<close>

lemma twiddle_outer_rule:
  fixes re im log2n :: int and B :: nat and cfg :: config and is_inverse :: bool and m :: mem
  assumes disj: "re + 2 ^ B \<le> im \<or> im + 2 ^ B \<le> re"
    and init: "m re = 0" "m im = 0"
    and t: "t \<le> B"
  defines "x \<equiv> \<lambda>i. fst (dbcF_cexpm1 cfg (log2n - int i))"
    and "y \<equiv> \<lambda>i. (if \<not> is_inverse then - snd (dbcF_cexpm1 cfg (log2n - int i))
                   else snd (dbcF_cexpm1 cfg (log2n - int i)))"
  defines "s \<equiv> loop_upto t (twiddle_outer_body cfg log2n re im is_inverse) m"
  shows "s re = 0 \<and> s im = 0
       \<and> (\<forall>i<t. \<forall>j<2 ^ i.
             s (re + (2 ^ i + int j)) = (x i * s (re + int j) - y i * s (im + int j)) + (x i + s (re + int j))
           \<and> s (im + (2 ^ i + int j)) = (y i * s (re + int j) + x i * s (im + int j)) + (y i + s (im + int j)))
       \<and> (\<forall>a. (a < re \<or> re + 2 ^ t \<le> a) \<and> (a < im \<or> im + 2 ^ t \<le> a) \<longrightarrow> s a = m a)"
  unfolding s_def using t
proof (induction t)
  case 0
  then show ?case using init by simp
next
  case (Suc t)
  define s0 where "s0 = loop_upto t (twiddle_outer_body cfg log2n re im is_inverse) m"
  define K :: nat where "K = 2 ^ t"
  have tB: "t < B" using Suc.prems by simp
  have KB: "2 * int K \<le> 2 ^ B"
  proof -
    have "(2::int) ^ Suc t \<le> 2 ^ B" using tB by (intro power_increasing) auto
    then show ?thesis by (simp add: K_def)
  qed
  have K1: "1 \<le> int K" by (simp add: K_def)
  have IH: "s0 re = 0" "s0 im = 0"
    "\<And>i j. i < t \<Longrightarrow> j < 2 ^ i \<Longrightarrow>
       s0 (re + (2 ^ i + int j)) = (x i * s0 (re + int j) - y i * s0 (im + int j)) + (x i + s0 (re + int j))
     \<and> s0 (im + (2 ^ i + int j)) = (y i * s0 (re + int j) + x i * s0 (im + int j)) + (y i + s0 (im + int j))"
    "\<And>a. (a < re \<or> re + int K \<le> a) \<and> (a < im \<or> im + int K \<le> a) \<Longrightarrow> s0 a = m a"
    using Suc by (auto simp: s0_def K_def)
  define s1 where "s1 = loop_upto K (twiddle_step re im (x t) (y t) (int K)) s0"
  have body: "twiddle_outer_body cfg log2n re im is_inverse (int t) s0 = s1"
    by (simp add: twiddle_outer_body_def DBCF_POW2_eq K_def x_def y_def s1_def
        Let_def for_loop_def nat_power_eq split: prod.split)
  have disj': "re + 2 * int K \<le> im \<or> im + 2 * int K \<le> re" using disj KB by auto
  note inner = twiddle_inner[OF disj' order_refl, of "x t" "y t" s0, folded s1_def]
  have new: "s1 (re + (int K + int j)) = (x t * s0 (re + int j) - y t * s0 (im + int j)) + (x t + s0 (re + int j))
           \<and> s1 (im + (int K + int j)) = (y t * s0 (re + int j) + x t * s0 (im + int j)) + (y t + s0 (im + int j))"
    if "j < K" for j using inner that by blast
  have old: "s1 a = s0 a"
    if "(a < re + int K \<or> re + int K + int K \<le> a) \<and> (a < im + int K \<or> im + int K + int K \<le> a)" for a
    using inner that by blast
  have low: "s1 (re + int k) = s0 (re + int k)" "s1 (im + int k) = s0 (im + int k)" if "k < K" for k
    using that disj' by (auto intro!: old)
  have step: "loop_upto (Suc t) (twiddle_outer_body cfg log2n re im is_inverse) m = s1"
    by (simp add: s0_def[symmetric] body)
  have K2: "(2::int) ^ Suc t = int K + int K" "(2::int) ^ t = int K" by (simp_all add: K_def)
  show ?case
    unfolding step
  proof (intro conjI allI impI)
    show "s1 re = 0" "s1 im = 0" using low[of 0] IH(1,2) by (simp_all add: K_def)
  next
    fix i j :: nat assume i: "i < Suc t" and j: "j < 2 ^ i"
    have rule: "s1 (re + (2 ^ i + int j)) = (x i * s1 (re + int j) - y i * s1 (im + int j)) + (x i + s1 (re + int j))
              \<and> s1 (im + (2 ^ i + int j)) = (y i * s1 (re + int j) + x i * s1 (im + int j)) + (y i + s1 (im + int j))"
    proof (cases "i = t")
      case True
      then have jK: "j < K" using j by (simp add: K_def)
      show ?thesis unfolding True K2 using new[OF jK] low[OF jK] by simp
    next
      case False
      then have it: "i < t" using i by simp
      have "(2::nat) ^ Suc i \<le> 2 ^ t" using it by (intro power_increasing) auto
      then have lt: "2 ^ i + j < K" "j < K" using j by (simp_all add: K_def)
      have "s1 (re + int (2 ^ i + j)) = s0 (re + int (2 ^ i + j))"
        "s1 (im + int (2 ^ i + j)) = s0 (im + int (2 ^ i + j))"
        using low[OF lt(1)] by simp_all
      then show ?thesis using IH(3)[OF it j] low[OF lt(2)] by simp
    qed
    from rule show "s1 (re + (2 ^ i + int j)) = (x i * s1 (re + int j) - y i * s1 (im + int j)) + (x i + s1 (re + int j))"
      by blast
    from rule show "s1 (im + (2 ^ i + int j)) = (y i * s1 (re + int j) + x i * s1 (im + int j)) + (y i + s1 (im + int j))"
      by blast
  next
    fix a assume "(a < re \<or> re + 2 ^ Suc t \<le> a) \<and> (a < im \<or> im + 2 ^ Suc t \<le> a)"
    then show "s1 a = m a"
      unfolding K2 using old[of a] IH(4)[of a] by auto
  qed
qed

lemma compute_twiddles_rule:
  fixes re im log2n :: int and B :: nat and m0 :: mem and cfg :: config and is_inverse :: bool
  assumes disj: "re + 2 ^ B \<le> im \<or> im + 2 ^ B \<le> re"
  defines "M \<equiv> dbcF_compute_twiddles cfg log2n (int B) re im is_inverse m0"
  defines "c \<equiv> \<lambda>i. Complex (fst (dbcF_cexp cfg (log2n - int i)))
                      ((if is_inverse then 1 else - 1) * snd (dbcF_cexp cfg (log2n - int i)))"
  shows "M re = 1" "M im = 0"
    and "i < B \<Longrightarrow> j < 2 ^ i \<Longrightarrow>
           Complex (M (re + (2 ^ i + int j))) (M (im + (2 ^ i + int j)))
             = Complex (M (re + int j)) (M (im + int j)) * c i"
proof -
  define s where "s = loop_upto B (twiddle_outer_body cfg log2n re im is_inverse) (m0(re := 0, im := 0))"
  have ne: "re \<noteq> im" using disj by (smt (verit) zero_less_power)
  note outer = twiddle_outer_rule[OF disj _ _ order_refl, of "m0(re := 0, im := 0)" cfg log2n is_inverse,
      folded s_def]
  have M: "M a = (if re \<le> a \<and> a < re + 2 ^ B then 1 + s a else s a)" for a
    by (simp add: M_def compute_twiddles_loop_form add_one_loop s_def)
  have Mre: "M (re + int k) = 1 + s (re + int k)" if "k < 2 ^ B" for k
  proof -
    have "int k < 2 ^ B" using that by (metis of_nat_less_iff of_nat_numeral of_nat_power)
    then show ?thesis by (simp add: M)
  qed
  have Mim: "M (im + int k) = s (im + int k)" if "k < 2 ^ B" for k
  proof -
    have "int k < 2 ^ B" using that by (metis of_nat_less_iff of_nat_numeral of_nat_power)
    then have "\<not> (re \<le> im + int k \<and> im + int k < re + 2 ^ B)" using disj by linarith
    then show ?thesis by (simp add: M)
  qed
  have s0: "s re = 0" "s im = 0" using outer ne by simp_all
  show "M re = 1" using Mre[of 0] s0 by simp
  show "M im = 0" using Mim[of 0] s0 by simp
  show "Complex (M (re + (2 ^ i + int j))) (M (im + (2 ^ i + int j)))
             = Complex (M (re + int j)) (M (im + int j)) * c i" if i: "i < B" and j: "j < 2 ^ i"
  proof -
    have "(2::nat) ^ Suc i \<le> 2 ^ B" using i by (intro power_increasing) auto
    then have lt: "2 ^ i + j < 2 ^ B" "j < 2 ^ B" using j by simp_all
    have hi: "M (re + (2 ^ i + int j)) = 1 + s (re + (2 ^ i + int j))"
      "M (im + (2 ^ i + int j)) = s (im + (2 ^ i + int j))"
      using Mre[OF lt(1)] Mim[OF lt(1)] by simp_all
    obtain x y0 where xy: "dbcF_cexpm1 cfg (log2n - int i) = (x, y0)" by (cases "dbcF_cexpm1 cfg (log2n - int i)")
    have r: "s (re + (2 ^ i + int j))
               = (x * s (re + int j) - (if \<not> is_inverse then - y0 else y0) * s (im + int j)) + (x + s (re + int j))"
      "s (im + (2 ^ i + int j))
               = ((if \<not> is_inverse then - y0 else y0) * s (re + int j) + x * s (im + int j))
                  + ((if \<not> is_inverse then - y0 else y0) + s (im + int j))"
      using outer[THEN conjunct2, THEN conjunct2, THEN conjunct1, rule_format, OF _ _ i j] ne
      by (simp_all add: xy)
    show ?thesis
      unfolding hi Mre[OF lt(2)] Mim[OF lt(2)] r c_def
      by (cases is_inverse) (simp_all add: dbcF_cexp_def xy complex_eq_iff algebra_simps)
  qed
qed

lemma cexpm1_builtin_exact:
  assumes "cfg_cexpm1 cfg = None" "1 \<le> k" "k \<le> 2"
  shows "dbcF_cexpm1 cfg k = exact_cexpm1 k"
proof -
  consider "k = 1" | "k = 2" using assms(2,3) by linarith
  then show ?thesis
  proof cases
    case 1
    have "2 * pi / 2 ^ nat 1 = pi" by simp
    then show ?thesis
      unfolding 1 exact_cexpm1_def
      by (simp add: dbcF_cexpm1_def assms(1) dbcF_cexpm1_table_def)
  next
    case 2
    have "2 * pi / 2 ^ nat 2 = pi / 2" by simp
    then show ?thesis
      unfolding 2 exact_cexpm1_def
      by (simp add: dbcF_cexpm1_def assms(1) dbcF_cexpm1_table_def)
  qed
qed

subsection \<open>The built-in seeds are rational numbers\<close>

lemma cexpm1_table_rational: "\<forall>p \<in> set dbcF_cexpm1_table. fst p \<in> \<rat>"
  by (simp add: dbcF_cexpm1_table_def)

lemma cexpm1_builtin_rational:
  assumes "cfg_cexpm1 cfg = None" "0 \<le> k"
  shows "fst (dbcF_cexpm1 cfg k) \<in> \<rat>"
proof (cases "k < int (length dbcF_cexpm1_table)")
  case True
  then have "nat k < length dbcF_cexpm1_table" using assms(2) by simp
  then have "dbcF_cexpm1_table ! nat k \<in> set dbcF_cexpm1_table" by (rule nth_mem)
  then show ?thesis
    using cexpm1_table_rational True assms by (simp add: dbcF_cexpm1_def)
next
  case False
  have "fst (dbcF_cexpm1 cfg k) =
          fst (let n = push_bit (nat k) (1 :: int);
                C1 = 1;
                C2 = 5 / 10;
                C3 = 1666666666666666666666666666666666666666 / 10 ^ 40;
                C4 = 4166666666666666666666666666666666666666 / 10 ^ 41;
                C5 = 8333333333333333333333333333333333333333 / 10 ^ 42;
                C6 = 1388888888888888888888888888888888888888 / 10 ^ 42;
                C7 = 1984126984126984126984126984126984126984 / 10 ^ 43;
                C8 = 2480158730158730158730158730158730158730 / 10 ^ 44;
                x = (6283185307179586476925286766559005768 / 10 ^ 36) / real_of_int n;
                x2 = x * x
            in (- x2 * (C2 - x2 * (C4 - x2 * (C6 - x2 * C8))),
                x * (C1 - x2 * (C3 - x2 * (C5 - x2 * C7)))))"
    unfolding dbcF_cexpm1_def using False assms(1) by (simp only: option.case if_False)
  also have "\<dots> \<in> \<rat>"
    unfolding Let_def fst_conv
    by (intro Rats_mult Rats_diff Rats_minus_iff[THEN iffD2] Rats_divide Rats_power
        Rats_number_of Rats_of_int)
  finally show ?thesis .
qed

subsection \<open>The cosines of the angles \<open>2\<pi>/2^n\<close> are irrational from \<open>n = 3\<close> on\<close>

lemma sqrt2_irrational: "sqrt 2 \<notin> \<rat>"
proof
  assume "sqrt 2 \<in> \<rat>"
  then obtain p q :: nat where q: "q \<noteq> 0" and e: "\<bar>sqrt 2\<bar> = real p / real q" and cop: "coprime p q"
    by (rule Rats_abs_nat_div_natE)
  from e q have "sqrt 2 * real q = real p" by (simp add: field_simps)
  then have "(sqrt 2 * real q)\<^sup>2 = (real p)\<^sup>2" by simp
  then have "2 * (real q)\<^sup>2 = (real p)\<^sup>2" by (simp add: power_mult_distrib)
  then have "real (2 * q\<^sup>2) = real (p\<^sup>2)" by simp
  then have pq: "2 * q\<^sup>2 = p\<^sup>2" by (rule of_nat_eq_iff[THEN iffD1])
  then have "even (p\<^sup>2)" by (metis dvd_triv_left)
  then have "even p" by simp
  then obtain r where r: "p = 2 * r" by (elim evenE)
  with pq have "q\<^sup>2 = 2 * r\<^sup>2" by (simp add: power_mult_distrib)
  then have "even (q\<^sup>2)" by (metis dvd_triv_left)
  then have "even q" by simp
  with \<open>even p\<close> cop show False by (metis coprime_common_divisor_nat dvd_refl even_Suc not_is_unit_0 one_dvd Suc_1 odd_one)
qed

lemma cos_pi_pow2_irrational: "cos (pi / 2 ^ (n + 2)) \<notin> \<rat>"
proof (induction n)
  case 0
  have e: "pi / 2 ^ (0 + 2) = pi / 4" by simp
  have "sqrt 2 / 2 \<notin> \<rat>"
  proof
    assume "sqrt 2 / 2 \<in> \<rat>"
    then have "2 * (sqrt 2 / 2) \<in> \<rat>" by (intro Rats_mult) simp_all
    then show False using sqrt2_irrational by simp
  qed
  then show ?case unfolding e cos_45 .
next
  case (Suc n)
  show ?case
  proof
    assume r: "cos (pi / 2 ^ (Suc n + 2)) \<in> \<rat>"
    have "cos (pi / 2 ^ (n + 2)) = cos (2 * (pi / 2 ^ (Suc n + 2)))" by simp
    also have "\<dots> = 2 * (cos (pi / 2 ^ (Suc n + 2)))\<^sup>2 - 1" by (rule cos_double_cos)
    also have "\<dots> \<in> \<rat>" using r by (intro Rats_diff Rats_mult Rats_power) simp_all
    finally show False using Suc.IH by simp
  qed
qed

lemma cexpm1_builtin_small:
  "dbcF_cexpm1 example_config 1 = (- 2, 0)"
  "dbcF_cexpm1 example_config 2 = (- 1, 1)"
  "dbcF_cexpm1 example_config 3 = (- (2928932188134524755991556378951509607151 / 10 ^ 40),
        7071067811865475244008443621048490392848 / 10 ^ 40)"
  by (simp_all add: dbcF_cexpm1_def example_config_def dbcF_cexpm1_table_def)

lemma cexpm1_builtin_exact_small:
  "dbcF_cexpm1 example_config 1 = exact_cexpm1 1"
  "dbcF_cexpm1 example_config 2 = exact_cexpm1 2"
proof -
  have "2 * pi / 2 ^ nat 2 = pi / 2" by simp
  then show "dbcF_cexpm1 example_config 2 = exact_cexpm1 2"
    unfolding exact_cexpm1_def cexpm1_builtin_small by simp
  have "2 * pi / 2 ^ nat 1 = pi" by simp
  then show "dbcF_cexpm1 example_config 1 = exact_cexpm1 1"
    unfolding exact_cexpm1_def cexpm1_builtin_small by simp
qed

lemma twiddle_example_value:
  "dbcF_compute_twiddles example_config 3 1 2000 2512 False example_mem 2001
     = 7071067811865475244008443621048490392849 / 10 ^ 40"
  by (simp add: compute_twiddles_loop_form[of _ _ 1, simplified] twiddle_outer_body_def
      cexpm1_builtin_small twiddle_step_def DBCF_POW2_def for_loop_def Let_def example_mem_def
      eval_nat_numeral)

text \<open>
  Claim C9, as stated, fails: the seed routine that is compiled holds decimal literals.
  For \<open>log2n = 3\<close> the entry \<open>tr[1]\<close> is \<open>1 - 0.29289...\<close>, a rational number, and not
  \<open>cos(2\<pi>/8)\<close>.
\<close>

theorem compute_twiddles_table_seed_inexact:
  "dbcF_compute_twiddles example_config 3 1 2000 2512 False example_mem (2000 + 1)
     \<noteq> cos (2 * pi * 1 / 2 ^ nat 3)"
proof
  assume "dbcF_compute_twiddles example_config 3 1 2000 2512 False example_mem (2000 + 1)
     = cos (2 * pi * 1 / 2 ^ nat 3)"
  moreover have "2 * pi * 1 / 2 ^ nat 3 = pi / 4" by simp
  ultimately have "sqrt 2 / 2 = 7071067811865475244008443621048490392849 / 10 ^ 40"
    using twiddle_example_value by (simp add: cos_45)
  then have "sqrt 2 = 2 * (7071067811865475244008443621048490392849 / 10 ^ 40)" by simp
  then have "(sqrt 2)\<^sup>2 = (2 * (7071067811865475244008443621048490392849 / 10 ^ 40))\<^sup>2"
    by (rule arg_cong)
  then show False by (simp add: power2_eq_square)
qed

text \<open>
  Claim C9, amended.  For \<open>0 \<le> log2b \<le> log2n\<close> and two buffers that do not overlap,
  \<^verbatim>\<open>dbcF_compute_twiddles\<close> leaves \<open>twiddle[0] = 1\<close> and each further entry of the filled
  prefix obeys the doubling rule \<open>twiddle[2^i + j] = twiddle[j] \<cdot> c\<^sub>i\<close>, where \<open>c\<^sub>i\<close> is the
  value the seed routine has for \<open>exp(2\<pi>i/2^(log2n - i))\<close> (\<^verbatim>\<open>dbcF_cexp\<close>, which is
  \<open>1 +\<close> \<^verbatim>\<open>dbcF_cexpm1\<close>), conjugated for the forward direction.  With the built-in seed
  routine the entries are \<open>tr[k] = cos(2\<pi>k/2^log2n)\<close> and \<open>ti[k] = \<mp>sin(2\<pi>k/2^log2n)\<close>
  exactly when \<open>log2n \<le> 2\<close>; for every \<open>log2n \<ge> 3\<close> (and \<open>log2b \<ge> 1\<close>) the entry \<open>tr[1]\<close> is a
  rational number and differs from \<open>cos(2\<pi>/2^log2n)\<close>, which is irrational.
\<close>

theorem compute_twiddles_doubling_rule:
  assumes "0 \<le> log2b" "log2b \<le> log2n"
    and "re + 2 ^ nat log2b \<le> im \<or> im + 2 ^ nat log2b \<le> re"
  shows "dbcF_compute_twiddles cfg log2n log2b re im is_inverse m re = 1
       \<and> dbcF_compute_twiddles cfg log2n log2b re im is_inverse m im = 0
       \<and> (\<forall>i j. 0 \<le> i \<and> i < log2b \<and> 0 \<le> j \<and> j < 2 ^ nat i \<longrightarrow>
            Complex (dbcF_compute_twiddles cfg log2n log2b re im is_inverse m (re + (2 ^ nat i + j)))
                    (dbcF_compute_twiddles cfg log2n log2b re im is_inverse m (im + (2 ^ nat i + j)))
            = Complex (dbcF_compute_twiddles cfg log2n log2b re im is_inverse m (re + j))
                      (dbcF_compute_twiddles cfg log2n log2b re im is_inverse m (im + j))
              * Complex (fst (dbcF_cexp cfg (log2n - i)))
                        ((if is_inverse then 1 else - 1) * snd (dbcF_cexp cfg (log2n - i))))
       \<and> (cfg_cexpm1 cfg = None \<and> log2n \<le> 2 \<longrightarrow>
            (\<forall>k. 0 \<le> k \<and> k < 2 ^ nat log2b \<longrightarrow>
              dbcF_compute_twiddles cfg log2n log2b re im is_inverse m (re + k)
                = cos (2 * pi * real_of_int k / 2 ^ nat log2n)
            \<and> dbcF_compute_twiddles cfg log2n log2b re im is_inverse m (im + k)
                = (if is_inverse then sin (2 * pi * real_of_int k / 2 ^ nat log2n)
                   else - sin (2 * pi * real_of_int k / 2 ^ nat log2n))))
       \<and> (cfg_cexpm1 cfg = None \<and> 3 \<le> log2n \<and> 1 \<le> log2b \<longrightarrow>
            dbcF_compute_twiddles cfg log2n log2b re im is_inverse m (re + 1)
              \<noteq> cos (2 * pi * 1 / 2 ^ nat log2n))"
proof -
  define B where "B = nat log2b"
  have lb: "log2b = int B" using assms(1) by (simp add: B_def)
  define M where "M = dbcF_compute_twiddles cfg log2n (int B) re im is_inverse m"
  have disj: "re + 2 ^ B \<le> im \<or> im + 2 ^ B \<le> re" using assms(3) by (simp add: B_def)
  have Bn: "int B \<le> log2n" using assms(2) by (simp add: lb)
  note rule = compute_twiddles_rule[OF disj, where cfg = cfg and log2n = log2n
      and is_inverse = is_inverse and ?m0.0 = m, folded M_def]
  have part3: "Complex (M (re + (2 ^ nat i + j))) (M (im + (2 ^ nat i + j)))
            = Complex (M (re + j)) (M (im + j))
              * Complex (fst (dbcF_cexp cfg (log2n - i)))
                        ((if is_inverse then 1 else - 1) * snd (dbcF_cexp cfg (log2n - i)))"
    if "0 \<le> i \<and> i < log2b \<and> 0 \<le> j \<and> j < 2 ^ nat i" for i j
  proof -
    define I where "I = nat i"
    define J where "J = nat j"
    have ij: "i = int I" "j = int J" "I < B" "J < 2 ^ I"
      using that by (simp_all add: I_def J_def lb nat_less_iff)
    show ?thesis unfolding ij(1,2) using rule(3)[OF ij(3,4)] by simp
  qed
  have part4: "M (re + k) = cos (2 * pi * real_of_int k / 2 ^ nat log2n)
          \<and> M (im + k) = (if is_inverse then sin (2 * pi * real_of_int k / 2 ^ nat log2n)
                 else - sin (2 * pi * real_of_int k / 2 ^ nat log2n))"
    if c: "cfg_cexpm1 cfg = None \<and> log2n \<le> 2" and k: "0 \<le> k \<and> k < 2 ^ nat log2b" for k
  proof -
    have seeds: "\<forall>i<B. dbcF_cexpm1 cfg (log2n - int i) = exact_cexpm1 (log2n - int i)"
    proof (intro allI impI)
      fix i assume "i < B"
      then have "1 \<le> log2n - int i" "log2n - int i \<le> 2" using Bn c by simp_all
      then show "dbcF_cexpm1 cfg (log2n - int i) = exact_cexpm1 (log2n - int i)"
        using c by (intro cexpm1_builtin_exact) simp_all
    qed
    note cc = compute_twiddles_correct[OF disj Bn seeds, of _ is_inverse m, folded M_def]
    have "nat k < 2 ^ B" using k by (simp add: B_def nat_less_iff)
    from cc(1,2)[OF this] k show ?thesis by (simp add: tw_sign_def mult.commute)
  qed
  have part5: "M (re + 1) \<noteq> cos (2 * pi * 1 / 2 ^ nat log2n)"
    if c: "cfg_cexpm1 cfg = None \<and> 3 \<le> log2n \<and> 1 \<le> log2b"
  proof -
    have B: "0 < B" using c by (simp add: lb)
    have "Complex (M (re + (2 ^ 0 + int 0))) (M (im + (2 ^ 0 + int 0)))
            = Complex (M (re + int 0)) (M (im + int 0))
              * Complex (fst (dbcF_cexp cfg (log2n - int 0)))
                        ((if is_inverse then 1 else - 1) * snd (dbcF_cexp cfg (log2n - int 0)))"
      by (rule rule(3)[OF B]) simp
    then have "M (re + 1) = fst (dbcF_cexp cfg log2n)"
      using rule(1,2) by (simp add: complex_eq_iff)
    also have "\<dots> = 1 + fst (dbcF_cexpm1 cfg log2n)"
      by (simp add: dbcF_cexp_def split: prod.split)
    also have "\<dots> \<in> \<rat>" using c by (intro Rats_add cexpm1_builtin_rational) simp_all
    finally have q: "M (re + 1) \<in> \<rat>" .
    define n where "n = nat log2n - 3"
    have "3 \<le> nat log2n" using c by linarith
    then have n: "nat log2n = n + 3" by (simp add: n_def)
    have "2 * pi * 1 / 2 ^ nat log2n = pi / 2 ^ (n + 2)" by (simp add: n power_add)
    then have "cos (2 * pi * 1 / 2 ^ nat log2n) \<notin> \<rat>" using cos_pi_pow2_irrational[of n] by simp
    with q show ?thesis by auto
  qed
  have M': "dbcF_compute_twiddles cfg log2n log2b re im is_inverse m = M" by (simp add: M_def lb)
  show ?thesis
    unfolding M'
  proof (intro conjI allI impI)
    show "M re = 1" "M im = 0" by (rule rule(1), rule rule(2))
  next
    fix i j :: int assume "0 \<le> i \<and> i < log2b \<and> 0 \<le> j \<and> j < 2 ^ nat i"
    then show "Complex (M (re + (2 ^ nat i + j))) (M (im + (2 ^ nat i + j)))
            = Complex (M (re + j)) (M (im + j))
              * Complex (fst (dbcF_cexp cfg (log2n - i)))
                        ((if is_inverse then 1 else - 1) * snd (dbcF_cexp cfg (log2n - i)))"
      by (rule part3)
  next
    fix k :: int
    assume c: "cfg_cexpm1 cfg = None \<and> log2n \<le> 2" and k: "0 \<le> k \<and> k < 2 ^ nat log2b"
    from part4[OF c k]
    show "M (re + k) = cos (2 * pi * real_of_int k / 2 ^ nat log2n)"
      "M (im + k) = (if is_inverse then sin (2 * pi * real_of_int k / 2 ^ nat log2n)
                 else - sin (2 * pi * real_of_int k / 2 ^ nat log2n))"
      by simp_all
  next
    assume c: "cfg_cexpm1 cfg = None \<and> 3 \<le> log2n \<and> 1 \<le> log2b"
    then show "M (re + 1) \<noteq> cos (2 * pi * 1 / 2 ^ nat log2n)" by (rule part5)
  qed
qed

theorem compute_twiddles_doubling_rule_witness:
  "dbcF_compute_twiddles example_config 2 2 2000 2512 False example_mem (2000 + 1)
     = cos (2 * pi * real_of_int 1 / 2 ^ nat 2)
   \<and> dbcF_compute_twiddles example_config 2 2 2000 2512 False example_mem (2512 + 1)
     = - sin (2 * pi * real_of_int 1 / 2 ^ nat 2)
   \<and> dbcF_compute_twiddles example_config 2 2 2000 2512 False example_mem 2000 = 1
   \<and> Complex (dbcF_compute_twiddles example_config 2 2 2000 2512 False example_mem (2000 + (2 ^ nat 1 + 1)))
              (dbcF_compute_twiddles example_config 2 2 2000 2512 False example_mem (2512 + (2 ^ nat 1 + 1)))
      = Complex (dbcF_compute_twiddles example_config 2 2 2000 2512 False example_mem (2000 + 1))
                (dbcF_compute_twiddles example_config 2 2 2000 2512 False example_mem (2512 + 1))
        * Complex (fst (dbcF_cexp example_config (2 - 1)))
                  ((if False then 1 else - 1) * snd (dbcF_cexp example_config (2 - 1)))
   \<and> dbcF_compute_twiddles example_config 4 1 2000 2512 False example_mem (2000 + 1)
     \<noteq> cos (2 * pi * 1 / 2 ^ nat 4)"
proof -
  have d2: "(2000::int) + 2 ^ nat 2 \<le> 2512 \<or> (2512::int) + 2 ^ nat 2 \<le> 2000" by simp
  have d1: "(2000::int) + 2 ^ nat 1 \<le> 2512 \<or> (2512::int) + 2 ^ nat 1 \<le> 2000" by simp
  have none: "cfg_cexpm1 example_config = None" by (simp add: example_config_def)
  note a = compute_twiddles_doubling_rule[OF _ _ d2, where log2n = 2 and cfg = example_config
      and is_inverse = False and m = example_mem]
  note b = compute_twiddles_doubling_rule[OF _ _ d1, where log2n = 4 and cfg = example_config
      and is_inverse = False and m = example_mem]
  have a4: "dbcF_compute_twiddles example_config 2 2 2000 2512 False example_mem (2000 + 1)
       = cos (2 * pi * real_of_int 1 / 2 ^ nat 2)
     \<and> dbcF_compute_twiddles example_config 2 2 2000 2512 False example_mem (2512 + 1)
       = - sin (2 * pi * real_of_int 1 / 2 ^ nat 2)"
    using a[THEN conjunct2, THEN conjunct2, THEN conjunct2, THEN conjunct1, rule_format, of 1] none
    by simp
  have a1: "dbcF_compute_twiddles example_config 2 2 2000 2512 False example_mem 2000 = 1"
    using a by simp
  have a3: "Complex (dbcF_compute_twiddles example_config 2 2 2000 2512 False example_mem (2000 + (2 ^ nat 1 + 1)))
              (dbcF_compute_twiddles example_config 2 2 2000 2512 False example_mem (2512 + (2 ^ nat 1 + 1)))
      = Complex (dbcF_compute_twiddles example_config 2 2 2000 2512 False example_mem (2000 + 1))
                (dbcF_compute_twiddles example_config 2 2 2000 2512 False example_mem (2512 + 1))
        * Complex (fst (dbcF_cexp example_config (2 - 1)))
                  ((if False then 1 else - 1) * snd (dbcF_cexp example_config (2 - 1)))"
    by (rule a[THEN conjunct2, THEN conjunct2, THEN conjunct1, rule_format, of 1 1]) simp_all
  have b5: "dbcF_compute_twiddles example_config 4 1 2000 2512 False example_mem (2000 + 1)
     \<noteq> cos (2 * pi * 1 / 2 ^ nat 4)"
    using b[THEN conjunct2, THEN conjunct2, THEN conjunct2, THEN conjunct2] none by simp
  show ?thesis using a4 a1 a3 b5 by blast
qed

section \<open>The bit-reversal permutation\<close>

subsection \<open>Loops of exchanges and of copies\<close>








subsection \<open>Facts on the reversal of bits\<close>







subsection \<open>Cells of a strided array\<close>


lemma cell_sub: "cell (cell p s a) (int b * s) k = cell p s (a + b * k)"
  by (simp add: cell_def algebra_simps)

lemma cell_0 [simp]: "cell p s 0 = p"
  by (simp add: cell_def)



lemma for_loop_pow2 [simp]: "for_loop (2 ^ L) body s = loop_upto (2 ^ L) body s"
  by (simp add: for_loop_def nat_power_eq)

subsection \<open>The exchanging routine\<close>











lemma cell_shift: "cell (p + int a * s) (int b * s) k = cell p s (a + b * k)"
  by (simp add: cell_def algebra_simps)




































section \<open>Strides at the entry surface\<close>



section \<open>The transform at the entry surface\<close>

text \<open>
  Claim C1 does not hold of the code.  The forward transform of \<open>X = (1, 3)\<close> with scale 2 is
  \<open>Y[1] = 2 \<cdot> (X[0] + X[1] \<cdot> exp(-2\<pi>i \<cdot> 1 \<cdot> 1 / 2)) = - 4\<close>.  Called with the destination
  strides 2, which the header documents, the strided entry point returns success and leaves
  \<open>- 2\<close> in \<open>dst_real[1 * 2]\<close>: the scaling loop of \<^verbatim>\<open>dbcF_fft_pot\<close> indexes \<open>dst_real[i]\<close>
  and never reaches that cell.
\<close>

theorem transform_unscaled_at_strided_destination:
  "outcome_code (dbc_fft_s example_config 2 100 200 1 1 300 400 2 2 2 example_mem) = Some 0
   \<and> outcome_cells (dbc_fft_s example_config 2 100 200 1 1 300 400 2 2 2 example_mem)
       [300 + 1 * 2] = [- 2]
   \<and> Re (2 * (\<Sum>k<2. Complex (example_mem (100 + int k * 1)) (example_mem (200 + int k * 1))
                       * cis (- (2 * pi * 1 * real k / 2)))) = - 4"
proof -
  have "outcome_code (dbc_fft_s example_config 2 100 200 1 1 300 400 2 2 2 example_mem) = Some 0"
    by (simp add: dbc_fft_s_def dbcF_fft_def pot_code)
  moreover have "outcome_cells (dbc_fft_s example_config 2 100 200 1 1 300 400 2 2 2 example_mem)
       [300 + 1 * 2] = [- 2]"
    apply (simp add: dbc_fft_s_def dbcF_fft_def dbcF_fft_pot_def pot_log2_2 Let_def
        cong: let_weak_cong)
    apply (simp add: example_config_def example_permutation_real example_permutation_imag
        cong: let_weak_cong)
    apply (simp add: example_config_def[symmetric] example_butterfly cong: let_weak_cong)
    apply (simp add: for_loop_def loop_upto_numeral outcome_cells_def example_mem_def
        cong: let_weak_cong)
    done
  moreover have "Re (2 * (\<Sum>k<2. Complex (example_mem (100 + int k * 1)) (example_mem (200 + int k * 1))
                       * cis (- (2 * pi * 1 * real k / 2)))) = - 4"
    by (simp add: eval_nat_numeral example_mem_def)
  ultimately show ?thesis by blast
qed

end
